theory Spec2Isabelle
  imports Complex_Main "HOL-Library.Word"
begin

unbundle bit_operations_syntax

section \<open>Data model of notification-osd.c\<close>

subsection \<open>Accumulated actions (enum done_action)\<close>

text \<open>
  \<^verbatim>\<open>done_actions\<close> is a C \<^verbatim>\<open>int\<close> used as a bit mask. It is modelled as a 32-bit word;
  \<^verbatim>\<open>done_actions |= A\<close> is \<open>OR\<close>, and the test \<^verbatim>\<open>done_actions & A\<close> in a condition is
  \<open>c_true (done_actions AND A)\<close>.
\<close>

type_synonym actions = "32 word"

definition A_NTF_RST :: actions where "A_NTF_RST = push_bit 0 1"
definition A_NTF_UPD :: actions where "A_NTF_UPD = push_bit 1 1"
definition A_NTF_CLOSE :: actions where "A_NTF_CLOSE = push_bit 2 1"
definition A_QUEUE_SHOT :: actions where "A_QUEUE_SHOT = push_bit 3 1"
definition A_FORCED_QUEUE_SHOT :: actions where "A_FORCED_QUEUE_SHOT = push_bit 4 1"
definition A_NTF_CHECK_IMAGE :: actions where "A_NTF_CHECK_IMAGE = push_bit 5 1"

definition c_true :: "actions \<Rightarrow> bool" where
  "c_true w = (w \<noteq> 0)"

subsection \<open>Tagged values (struct mpv_node)\<close>

text \<open>
  A finite C double is a rational number; the two infinities and NaN are separate
  constructors.
\<close>

datatype c_double = Finite rat | Infinity bool | NaN

datatype mpv_node =
    Node_None
  | Node_String "string option"
  | Node_Flag int
  | Node_Int64 int
  | Node_Double c_double
  | Node_Map "(string \<times> mpv_node) list"
  | Node_Array "mpv_node list"
  | Node_Byte_Array "nat list"

text \<open>
  Reading a member of the union \<^verbatim>\<open>u\<close>. The option and property tables never change the
  format of a slot, so a member is only read from a node of its own format; for any other
  node the accessors return the zero value (as in a zero-initialised \<^verbatim>\<open>mpv_node\<close>).
\<close>

fun u_string :: "mpv_node \<Rightarrow> string option" where
  "u_string (Node_String s) = s"
| "u_string _ = None"

fun u_flag :: "mpv_node \<Rightarrow> int" where
  "u_flag (Node_Flag f) = f"
| "u_flag _ = 0"

fun u_int64 :: "mpv_node \<Rightarrow> int" where
  "u_int64 (Node_Int64 n) = n"
| "u_int64 _ = 0"

fun str_is_set :: "string option \<Rightarrow> bool" where
  "str_is_set None = False"
| "str_is_set (Some s) = (s \<noteq> [])"

text \<open>The common body of \<^verbatim>\<open>opt_true\<close> and \<^verbatim>\<open>op_true\<close>: the switch on the node's format.\<close>

fun node_true :: "mpv_node \<Rightarrow> bool" where
  "node_true Node_None = False"
| "node_true (Node_String s) = str_is_set s"
| "node_true (Node_Flag f) = (f \<noteq> 0)"
| "node_true (Node_Int64 n) = (n \<noteq> 0)"
| "node_true _ = False"

subsection \<open>Options (enum opts_key, opts_defaults)\<close>

datatype opts_key =
    O_EXPIRE_TIMEOUT
  | O_NTF_APP_ICON
  | O_NTF_CATEGORY
  | O_NTF_URGENCY
  | O_SEND_THUMBNAIL
  | O_SEND_PROGRESS
  | O_SEND_SUB_TEXT
  | O_THUMBNAIL_SIZE
  | O_SCREENSHOT_FLAGS
  | O_THUMBNAIL_SCALING
  | O_DISABLE_SCALING
  | O_FOCUS_MANUAL
  | O_PERFDATA

type_synonym opts_table = "opts_key \<Rightarrow> mpv_node"

text \<open>
  \<^verbatim>\<open>NOTIFY_URGENCY_LOW\<close> is 0 in libnotify and \<^verbatim>\<open>SWS_BICUBIC\<close> is 4 in libswscale.
\<close>

definition NOTIFY_URGENCY_LOW :: int where "NOTIFY_URGENCY_LOW = 0"
definition SWS_BICUBIC :: int where "SWS_BICUBIC = 4"

fun opts_defaults :: opts_table where
  "opts_defaults O_EXPIRE_TIMEOUT = Node_Int64 10"
| "opts_defaults O_NTF_APP_ICON = Node_String (Some ''mpv'')"
| "opts_defaults O_NTF_CATEGORY = Node_String (Some ''mpv'')"
| "opts_defaults O_NTF_URGENCY = Node_Int64 NOTIFY_URGENCY_LOW"
| "opts_defaults O_SEND_THUMBNAIL = Node_Flag 1"
| "opts_defaults O_SEND_PROGRESS = Node_Flag 1"
| "opts_defaults O_SEND_SUB_TEXT = Node_Flag 1"
| "opts_defaults O_THUMBNAIL_SIZE = Node_Int64 64"
| "opts_defaults O_SCREENSHOT_FLAGS = Node_String (Some ''video'')"
| "opts_defaults O_THUMBNAIL_SCALING = Node_Int64 SWS_BICUBIC"
| "opts_defaults O_DISABLE_SCALING = Node_Flag 0"
| "opts_defaults O_FOCUS_MANUAL = Node_Flag 0"
| "opts_defaults O_PERFDATA = Node_Flag 0"

definition opts_keys :: "opts_key list" where
  "opts_keys = [O_EXPIRE_TIMEOUT, O_NTF_APP_ICON, O_NTF_CATEGORY, O_NTF_URGENCY,
     O_SEND_THUMBNAIL, O_SEND_PROGRESS, O_SEND_SUB_TEXT, O_THUMBNAIL_SIZE,
     O_SCREENSHOT_FLAGS, O_THUMBNAIL_SCALING, O_DISABLE_SCALING, O_FOCUS_MANUAL,
     O_PERFDATA]"

subsection \<open>Observed properties (enum observed\_prop\_userdata, observed\_props)\<close>

datatype observed_prop_userdata =
    P_APP_NAME
  | P_BRIGHTNESS
  | P_CHAPTER
  | P_CHAPTERS
  | P_CONTRAST
  | P_CURRENT_TRACKS__VIDEO__IMAGE
  | P_DURATION
  | P_EDITION
  | P_EDITIONS
  | P_EOF_REACHED
  | P_FOCUSED
  | P_GAMMA
  | P_HUE
  | P_IDLE_ACTIVE
  | P_IMAGE_DISPLAY_DURATION
  | P_KEEP_OPEN
  | P_LAVFI_COMPLEX
  | P_MEDIA_TITLE
  | P_METADATA
  | P_MSG_LEVEL
  | P_MOUSE_POS
  | P_MUTE
  | P_OPTIONS_SCRIPT_OPTS
  | P_LOOP_FILE
  | P_PAUSE
  | P_PAUSED_FOR_CACHE
  | P_PERCENT_POS
  | P_PLAY_DIRECTION
  | P_PLAYLIST_COUNT
  | P_PLAYLIST_POS
  | P_SATURATION
  | P_SEEKING
  | P_SPEED
  | P_SUB_TEXT
  | P_SUB_VISIBILITY
  | P_TIME_POS
  | P_USER_DATA__DETECT_IMAGE__DETECTED
  | P_VID
  | P_VOLUME

definition all_props :: "observed_prop_userdata list" where
  "all_props = [P_APP_NAME, P_BRIGHTNESS, P_CHAPTER, P_CHAPTERS, P_CONTRAST,
     P_CURRENT_TRACKS__VIDEO__IMAGE, P_DURATION, P_EDITION, P_EDITIONS, P_EOF_REACHED,
     P_FOCUSED, P_GAMMA, P_HUE, P_IDLE_ACTIVE, P_IMAGE_DISPLAY_DURATION, P_KEEP_OPEN,
     P_LAVFI_COMPLEX, P_MEDIA_TITLE, P_METADATA, P_MSG_LEVEL, P_MOUSE_POS, P_MUTE,
     P_OPTIONS_SCRIPT_OPTS, P_LOOP_FILE, P_PAUSE, P_PAUSED_FOR_CACHE, P_PERCENT_POS,
     P_PLAY_DIRECTION, P_PLAYLIST_COUNT, P_PLAYLIST_POS, P_SATURATION, P_SEEKING, P_SPEED,
     P_SUB_TEXT, P_SUB_VISIBILITY, P_TIME_POS, P_USER_DATA__DETECT_IMAGE__DETECTED, P_VID,
     P_VOLUME]"

text \<open>
  The static columns of \<^verbatim>\<open>observed_props[]\<close>: the action mask, \<^verbatim>\<open>action_if_true\<close>,
  \<^verbatim>\<open>part_of_summary\<close>, \<^verbatim>\<open>part_of_body\<close> and \<^verbatim>\<open>string_needs_escaping\<close>. Fields the
  initialisers leave out are zero.
\<close>

fun prop_action :: "observed_prop_userdata \<Rightarrow> actions" where
  "prop_action P_APP_NAME = A_NTF_UPD"
| "prop_action P_BRIGHTNESS = A_QUEUE_SHOT"
| "prop_action P_CHAPTER = A_NTF_UPD"
| "prop_action P_CHAPTERS = A_NTF_UPD"
| "prop_action P_CONTRAST = A_QUEUE_SHOT"
| "prop_action P_CURRENT_TRACKS__VIDEO__IMAGE = 0"
| "prop_action P_DURATION = A_NTF_UPD"
| "prop_action P_EDITION = A_NTF_UPD"
| "prop_action P_EDITIONS = A_NTF_UPD"
| "prop_action P_EOF_REACHED = A_NTF_RST"
| "prop_action P_FOCUSED = A_NTF_CLOSE"
| "prop_action P_GAMMA = A_QUEUE_SHOT"
| "prop_action P_HUE = A_QUEUE_SHOT"
| "prop_action P_IDLE_ACTIVE = A_NTF_UPD OR A_NTF_CHECK_IMAGE"
| "prop_action P_IMAGE_DISPLAY_DURATION = A_NTF_UPD"
| "prop_action P_KEEP_OPEN = A_NTF_RST"
| "prop_action P_LAVFI_COMPLEX = A_NTF_UPD OR A_NTF_CHECK_IMAGE"
| "prop_action P_LOOP_FILE = A_NTF_RST"
| "prop_action P_MEDIA_TITLE = A_NTF_UPD"
| "prop_action P_METADATA = A_NTF_RST OR A_NTF_CHECK_IMAGE"
| "prop_action P_MOUSE_POS = 0"
| "prop_action P_MSG_LEVEL = 0"
| "prop_action P_MUTE = A_NTF_UPD"
| "prop_action P_OPTIONS_SCRIPT_OPTS = 0"
| "prop_action P_PAUSE = A_NTF_RST"
| "prop_action P_PAUSED_FOR_CACHE = A_NTF_UPD"
| "prop_action P_PERCENT_POS = 0"
| "prop_action P_PLAY_DIRECTION = A_NTF_UPD"
| "prop_action P_PLAYLIST_COUNT = A_NTF_UPD"
| "prop_action P_PLAYLIST_POS = A_NTF_UPD"
| "prop_action P_SATURATION = A_QUEUE_SHOT"
| "prop_action P_SEEKING = A_NTF_UPD"
| "prop_action P_SPEED = A_NTF_UPD"
| "prop_action P_SUB_TEXT = A_NTF_UPD"
| "prop_action P_SUB_VISIBILITY = A_NTF_UPD"
| "prop_action P_TIME_POS = A_NTF_UPD"
| "prop_action P_USER_DATA__DETECT_IMAGE__DETECTED = A_NTF_UPD"
| "prop_action P_VID = A_NTF_UPD OR A_NTF_CHECK_IMAGE"
| "prop_action P_VOLUME = A_NTF_UPD"

definition prop_action_if_true :: "observed_prop_userdata \<Rightarrow> bool" where
  "prop_action_if_true p = (p \<in> {P_EOF_REACHED, P_FOCUSED})"

definition prop_part_of_summary :: "observed_prop_userdata \<Rightarrow> bool" where
  "prop_part_of_summary p =
     (p \<in> {P_MEDIA_TITLE, P_METADATA, P_USER_DATA__DETECT_IMAGE__DETECTED})"

definition prop_part_of_body :: "observed_prop_userdata \<Rightarrow> bool" where
  "prop_part_of_body p =
     (p \<in> {P_CHAPTER, P_CHAPTERS, P_DURATION, P_EDITION, P_EDITIONS, P_EOF_REACHED,
            P_IMAGE_DISPLAY_DURATION, P_KEEP_OPEN, P_LOOP_FILE, P_METADATA, P_MUTE, P_PAUSE,
            P_PAUSED_FOR_CACHE, P_PLAY_DIRECTION, P_PLAYLIST_COUNT, P_PLAYLIST_POS,
            P_SEEKING, P_SPEED, P_SUB_TEXT, P_SUB_VISIBILITY, P_TIME_POS, P_VOLUME})"

definition prop_string_needs_escaping :: "observed_prop_userdata \<Rightarrow> bool" where
  "prop_string_needs_escaping p = (p = P_SUB_TEXT)"

subsection \<open>Program state\<close>

text \<open>
  The struct \<^verbatim>\<open>thumbnail_ctx\<close>. The three pointers are modelled by what the claims need of
  them: \<open>thumbnail\<close> is the size requested from \<^verbatim>\<open>malloc\<close> (\<open>None\<close> is \<^verbatim>\<open>NULL\<close>),
  \<open>pixbuf\<close> and \<open>sws\<close> say whether the pointer is non-\<^verbatim>\<open>NULL\<close>.
\<close>

record thumbnail_ctx_t =
  src_w :: int
  src_stride :: int
  src_h :: int
  dst_w :: int
  dst_stride :: int
  dst_h :: int
  thumbnail :: "int option"
  pixbuf :: bool
  sws :: bool

text \<open>\<^verbatim>\<open>memset(&thumbnail_ctx, 0, sizeof(thumbnail_ctx))\<close>\<close>

definition thumbnail_ctx_zero :: thumbnail_ctx_t where
  "thumbnail_ctx_zero =
     \<lparr>src_w = 0, src_stride = 0, src_h = 0, dst_w = 0, dst_stride = 0, dst_h = 0,
      thumbnail = None, pixbuf = False, sws = False\<rparr>"

text \<open>
  Calls into libnotify, libswscale, gdk-pixbuf, the timer and the mpv client API, and the
  allocation and release of the thumbnail buffer, in the order the program makes them.
  \<^verbatim>\<open>g_object_unref\<close> is logged without its argument (the notification or the pixbuf).
  Logging (\<^verbatim>\<open>ERR\<close>, \<^verbatim>\<open>VERBOSE\<close>, \<^verbatim>\<open>DEBUG\<close>) and the text buffers \<^verbatim>\<open>summary\<close> and
  \<^verbatim>\<open>body\<close> are not modelled, nor are the values of the progress hint, nor the release of
  the list of server capabilities (\<^verbatim>\<open>g_free\<close>, \<^verbatim>\<open>g_list_free\<close>).
\<close>

datatype call =
    Timerfd_Settime int
  | Notify_Notification_Close
  | Notify_Notification_Update
  | Notify_Notification_Show
  | Notify_Notification_Set_Image_From_Pixbuf bool
  | Notify_Notification_Set_Hint string bool
  | Notify_Notification_Set_Category "string option"
  | Notify_Notification_Set_Urgency int
  | Notify_Notification_Set_Timeout
  | Notify_Notification_New
  | Notify_Set_App_Name string
  | Notify_Set_App_Icon "string option"
  | Notify_Init
  | Notify_Uninit
  | Notify_Get_Server_Caps
  | G_Object_Unref
  | Mpv_Command_Async "string option"
  | Mpv_Observe_Property observed_prop_userdata
  | Mpv_Unobserve_Property observed_prop_userdata
  | Sws_GetContext int int int int int
  | Sws_Scale
  | Sws_FreeContext
  | Malloc int
  | Free
  | Memcpy int
  | Gdk_Pixbuf_New_From_Data int int int

text \<open>
  The file-scope variables. \<open>ntf\<close> says whether the pointer \<^verbatim>\<open>ntf\<close> is non-\<^verbatim>\<open>NULL\<close>,
  \<open>notify_initted\<close> is libnotify's \<^verbatim>\<open>notify_is_initted()\<close>, \<open>observed_props\<close> holds the
  \<^verbatim>\<open>node\<close> field of each table entry, and \<open>calls\<close> is the log of external calls.
  \<^verbatim>\<open>percent_pos_rounded\<close> is a \<^verbatim>\<open>long\<close>, 64 bits wide.
\<close>

record state =
  done_actions :: actions
  ntf_image_enabled :: bool
  rewrite_summary :: bool
  rewrite_body :: bool
  metadata_avail :: bool
  mouse_hovered :: bool
  screenshot_in_progress :: bool
  percent_pos_rounded :: "64 word"
  force_open :: bool
  thumbnail_ctx :: thumbnail_ctx_t
  opts_base :: opts_table
  opts :: opts_table
  observed_props :: "observed_prop_userdata \<Rightarrow> mpv_node"
  timer_armed :: bool
  ntf :: bool
  notify_initted :: bool
  server_body_markup :: bool
  mpv_has_app_name :: bool
  calls :: "call list"

definition emit :: "call \<Rightarrow> state \<Rightarrow> state" where
  "emit c s = s\<lparr>calls := calls s @ [c]\<rparr>"

definition opt_true :: "state \<Rightarrow> opts_key \<Rightarrow> bool" where
  "opt_true s opt = node_true (opts s opt)"

definition op_true :: "state \<Rightarrow> observed_prop_userdata \<Rightarrow> bool" where
  "op_true s ud = node_true (observed_props s ud)"

definition op_avail :: "state \<Rightarrow> observed_prop_userdata \<Rightarrow> bool" where
  "op_avail s ud = (observed_props s ud \<noteq> Node_None)"

section \<open>Notification session\<close>

text \<open>
  Outcomes of the library calls whose result the program branches on. \<open>server_caps\<close> is
  the \<^verbatim>\<open>GList\<close> returned by \<^verbatim>\<open>notify_get_server_caps\<close>; the empty list is the pointer
  \<^verbatim>\<open>NULL\<close>.
  The result of \<^verbatim>\<open>notify_notification_close\<close> only selects a log message.
\<close>

record ntf_env =
  show_ok :: bool
  init_ok :: bool
  server_caps :: "string list"
  new_ok :: bool

definition timer_disarm :: "state \<Rightarrow> state" where
  "timer_disarm s = (emit (Timerfd_Settime 0) s)\<lparr>timer_armed := False\<rparr>"

definition ntf_set_image :: "state \<Rightarrow> state" where
  "ntf_set_image s =
     (if \<not> ntf s then s
      else emit (Notify_Notification_Set_Image_From_Pixbuf (pixbuf (thumbnail_ctx s))) s)"

definition ntf_set_progress_bar :: "state \<Rightarrow> state" where
  "ntf_set_progress_bar s =
     (if \<not> ntf s then s
      else if op_true s P_IDLE_ACTIVE \<or> \<not> opt_true s O_SEND_PROGRESS
        then emit (Notify_Notification_Set_Hint ''value'' False) s
      else if op_true s P_USER_DATA__DETECT_IMAGE__DETECTED then
        (if op_avail s P_PLAYLIST_POS \<and> u_int64 (observed_props s P_PLAYLIST_COUNT) > 1
         then emit (Notify_Notification_Set_Hint ''value'' True) s
         else emit (Notify_Notification_Set_Hint ''value'' False) s)
      else emit (Notify_Notification_Set_Hint ''value'' True) s)"

definition ntf_set_urgency :: "state \<Rightarrow> state" where
  "ntf_set_urgency s =
     (if \<not> ntf s then s
      else emit (Notify_Notification_Set_Urgency (u_int64 (opts s O_NTF_URGENCY))) s)"

definition ntf_set_category :: "state \<Rightarrow> state" where
  "ntf_set_category s =
     (if \<not> ntf s then s
      else if opt_true s O_NTF_CATEGORY
        then emit (Notify_Notification_Set_Category (u_string (opts s O_NTF_CATEGORY))) s
      else emit (Notify_Notification_Set_Hint ''category'' False) s)"

definition ntf_set_app_name :: "state \<Rightarrow> state" where
  "ntf_set_app_name s =
     (if \<not> notify_initted s then s
      else if op_true s P_APP_NAME
        then emit (Notify_Set_App_Name (case u_string (observed_props s P_APP_NAME) of
                                          Some n \<Rightarrow> n | None \<Rightarrow> [])) s
      else emit (Notify_Set_App_Name ''mpv'') s)"

definition ntf_set_app_icon :: "state \<Rightarrow> state" where
  "ntf_set_app_icon s =
     (if \<not> notify_initted s then s
      else if opt_true s O_NTF_APP_ICON
        then emit (Notify_Set_App_Icon (u_string (opts s O_NTF_APP_ICON))) s
      else emit (Notify_Set_App_Icon None) s)"

definition ntf_close :: "state \<Rightarrow> state" where
  "ntf_close s = (if \<not> ntf s then s else emit Notify_Notification_Close s)"

definition ntf_uninit :: "state \<Rightarrow> state" where
  "ntf_uninit s =
     (let s1 = ntf_close s;
          s2 = (if ntf s1 then (emit G_Object_Unref s1)\<lparr>ntf := False\<rparr> else s1)
      in if notify_initted s2 then (emit Notify_Uninit s2)\<lparr>notify_initted := False\<rparr>
         else s2)"

definition ntf_update_server_caps :: "ntf_env \<Rightarrow> state \<Rightarrow> bool \<times> state" where
  "ntf_update_server_caps e s =
     (let s1 = emit Notify_Get_Server_Caps (s\<lparr>server_body_markup := False\<rparr>)
      in if server_caps e = [] then (False, s1)
         else (True, s1\<lparr>server_body_markup := (''body-markup'' \<in> set (server_caps e))\<rparr>))"

definition ntf_init :: "ntf_env \<Rightarrow> state \<Rightarrow> state" where
  "ntf_init e s =
     (let s1 = emit Notify_Init s in
      if \<not> init_ok e then s1
      else
        let s2 = s1\<lparr>notify_initted := True\<rparr>;
            (caps_ok, s3) = ntf_update_server_caps e s2
        in if \<not> caps_ok then ntf_uninit s3
           else
             let s4 = ntf_set_app_icon (ntf_set_app_name s3);
                 s5 = emit Notify_Notification_New s4
             in if \<not> new_ok e then ntf_uninit s5
                else ntf_set_image (ntf_set_urgency (ntf_set_category (ntf_set_progress_bar
                       (emit Notify_Notification_Set_Timeout (s5\<lparr>ntf := True\<rparr>))))))"

definition reobserve :: "state \<Rightarrow> observed_prop_userdata \<Rightarrow> state \<Rightarrow> state" where
  "reobserve s0 i s =
     (if \<not> mpv_has_app_name s0 \<and> i = P_APP_NAME then s
      else emit (Mpv_Observe_Property i) (emit (Mpv_Unobserve_Property i) s))"

definition ntf_reinit :: "ntf_env \<Rightarrow> state \<Rightarrow> state" where
  "ntf_reinit e s =
     (let s1 = ntf_init e (ntf_uninit s)
      in if ntf s1 then fold (reobserve s1) all_props s1 else s1)"

definition ntf_upd :: "ntf_env \<Rightarrow> state \<Rightarrow> state" where
  "ntf_upd e s =
     (if \<not> ntf s then ntf_reinit e s
      else
        let s1 = (if rewrite_summary s \<or> rewrite_body s
                  then emit Notify_Notification_Update s else s);
            s2 = s1\<lparr>rewrite_summary := False, rewrite_body := False\<rparr>;
            s3 = emit Notify_Notification_Show s2;
            s4 = (if \<not> show_ok e then ntf_reinit e s3 else s3)
        in if opt_true s4 O_PERFDATA then s4\<lparr>rewrite_body := True\<rparr> else s4)"

section \<open>Thumbnail enablement and screenshot requests\<close>

definition thumbnail_ctx_destroy :: "state \<Rightarrow> state" where
  "thumbnail_ctx_destroy s =
     (let s1 = (if thumbnail (thumbnail_ctx s) \<noteq> None then emit Free s else s);
          s2 = (if pixbuf (thumbnail_ctx s1) then emit G_Object_Unref s1 else s1);
          s3 = (if sws (thumbnail_ctx s2) then emit Sws_FreeContext s2 else s2)
      in ntf_set_image (s3\<lparr>thumbnail_ctx := thumbnail_ctx_zero\<rparr>))"

definition ntf_check_image :: "state \<Rightarrow> state" where
  "ntf_check_image s =
     (let switching_track = (\<not> op_true s P_IDLE_ACTIVE \<and> \<not> op_avail s P_VID \<and>
                             \<not> metadata_avail s)
      in if op_true s P_IDLE_ACTIVE \<or> \<not> opt_true s O_SEND_THUMBNAIL \<or>
            (\<not> op_avail s P_VID \<and> \<not> op_true s P_LAVFI_COMPLEX \<and> \<not> switching_track)
         then (if ntf_image_enabled s
               then (let s1 = thumbnail_ctx_destroy (s\<lparr>ntf_image_enabled := False\<rparr>)
                     in s1\<lparr>done_actions := done_actions s1 OR A_NTF_UPD\<rparr>)
               else s)
         else (if \<not> ntf_image_enabled s then s\<lparr>ntf_image_enabled := True\<rparr> else s))"

text \<open>
  \<open>async_ok\<close> is the outcome of \<^verbatim>\<open>mpv_command_async\<close> (it returned 0). The call that
  would abort an outstanding request is compiled out (\<^verbatim>\<open>#if 0\<close>).
\<close>

definition queue_screenshot :: "bool \<Rightarrow> bool \<Rightarrow> state \<Rightarrow> state" where
  "queue_screenshot async_ok force s =
     (if \<not> ntf_image_enabled s \<or> (\<not> timer_armed s \<and> (\<not> force \<and> \<not> force_open s)) then s
      else
        let s1 = (if screenshot_in_progress s then s\<lparr>screenshot_in_progress := False\<rparr>
                  else s);
            s2 = emit (Mpv_Command_Async (u_string (opts s1 O_SCREENSHOT_FLAGS))) s1
        in if async_ok then s2\<lparr>screenshot_in_progress := True\<rparr> else s2)"

section \<open>Batch resolution\<close>

text \<open>
  Outcomes of the external calls one run of \<^verbatim>\<open>done()\<close> can make: the screenshot request
  of the queueing step, the one \<^verbatim>\<open>ntf_rst\<close> may issue, and the notification calls.
\<close>

record done_env =
  queue_async_ok :: bool
  rst_async_ok :: bool
  ntf_outcomes :: ntf_env

definition ntf_rst :: "done_env \<Rightarrow> state \<Rightarrow> state" where
  "ntf_rst e s =
     (let timer_was_armed = timer_armed s;
          s1 = timer_disarm s;
          s2 = (emit (Timerfd_Settime (u_int64 (opts s1 O_EXPIRE_TIMEOUT))) s1)
                 \<lparr>timer_armed := True\<rparr>;
          s3 = (if \<not> timer_was_armed then queue_screenshot (rst_async_ok e) False s2
                else s2)
      in ntf_upd (ntf_outcomes e) s3)"

definition player_considered_focused :: "state \<Rightarrow> bool" where
  "player_considered_focused s =
     (op_true s P_FOCUSED \<or> mouse_hovered s \<or> opt_true s O_FOCUS_MANUAL)"

text \<open>
  \<^verbatim>\<open>done()\<close>, statement by statement: the image check, the screenshot request, the
  notification decision (everything up to the label \<^verbatim>\<open>finished\<close>), and the statements
  at the label.
\<close>

definition done_check_image :: "state \<Rightarrow> state" where
  "done_check_image s =
     (if c_true (done_actions s AND A_NTF_CHECK_IMAGE) then ntf_check_image s else s)"

definition done_queue_shot :: "done_env \<Rightarrow> state \<Rightarrow> state" where
  "done_queue_shot e s =
     (if c_true (done_actions s AND A_FORCED_QUEUE_SHOT)
        then queue_screenshot (queue_async_ok e) True s
      else if c_true (done_actions s AND A_QUEUE_SHOT)
        then queue_screenshot (queue_async_ok e) False s
      else s)"

definition done_notify :: "done_env \<Rightarrow> state \<Rightarrow> state" where
  "done_notify e s =
     (if c_true (done_actions s AND A_NTF_CLOSE) \<and> \<not> force_open s
        then ntf_close (timer_disarm s)
      else if (\<not> player_considered_focused s \<or> force_open s) \<and>
              ((metadata_avail s \<and> op_avail s P_TIME_POS) \<or> op_true s P_IDLE_ACTIVE)
        then (if c_true (done_actions s AND A_NTF_RST) then ntf_rst e s
              else if c_true (done_actions s AND A_NTF_UPD) \<and>
                      (timer_armed s \<or> force_open s)
                then ntf_upd (ntf_outcomes e) s
              else s)
      else s)"

definition done_main :: "done_env \<Rightarrow> state \<Rightarrow> state" where
  "done_main e s = done_notify e (done_queue_shot e (done_check_image s))"

definition finished :: "state \<Rightarrow> state" where
  "finished s = s\<lparr>done_actions := 0\<rparr>"

definition done_fn :: "done_env \<Rightarrow> state \<Rightarrow> state" where
  "done_fn e s = finished (done_main e s)"

section \<open>Undefined behaviour\<close>

text \<open>
  Where the C code has undefined behaviour that ends in a crash or has no result common to
  the usual targets, the model returns a fault instead of a state: \<^verbatim>\<open>strcmp\<close> on a
  \<^verbatim>\<open>NULL\<close> pointer, conversion of a double outside the range of \<^verbatim>\<open>int\<close>, a
  floating-point operation whose result is not a normal finite number (division by zero
  among them: the model has only finite doubles in its arithmetic). Overflow of \<^verbatim>\<open>int\<close>
  arithmetic is modelled by wrap-around, see \<open>int_mul\<close>.
\<close>

datatype fault =
    Strcmp_Null
  | Double_To_Int_Range
  | Double_Not_Normal

type_synonym 'a result = "fault + 'a"

definition bind_result :: "'a result \<Rightarrow> ('a \<Rightarrow> 'b result) \<Rightarrow> 'b result" where
  "bind_result r f = (case r of Inl x \<Rightarrow> Inl x | Inr v \<Rightarrow> f v)"

section \<open>Option changes (opts\_run\_changed)\<close>

text \<open>
  The first switch of the loop body: whether slot \<open>i\<close> changed. \<^verbatim>\<open>strcmp\<close> is reached
  when both pointers are non-\<^verbatim>\<open>NULL\<close> and also when both are \<^verbatim>\<open>NULL\<close>.
\<close>

definition opt_changed :: "mpv_node \<Rightarrow> mpv_node \<Rightarrow> bool result" where
  "opt_changed before after =
     (case before of
        Node_String b \<Rightarrow>
          (let a = u_string after in
           if (b = None \<and> a \<noteq> None) \<or> (b \<noteq> None \<and> a = None) then Inr True
           else (case (b, a) of
                   (Some x, Some y) \<Rightarrow> Inr (x \<noteq> y)
                 | _ \<Rightarrow> Inl Strcmp_Null))
      | Node_Flag f \<Rightarrow> Inr (f \<noteq> u_flag after)
      | Node_Int64 n \<Rightarrow> Inr (n \<noteq> u_int64 after)
      | _ \<Rightarrow> Inr False)"

definition add_actions :: "actions \<Rightarrow> state \<Rightarrow> state" where
  "add_actions a s = s\<lparr>done_actions := done_actions s OR a\<rparr>"

text \<open>The second switch: what a changed slot \<open>i\<close> triggers.\<close>

fun opt_changed_effects :: "opts_key \<Rightarrow> state \<Rightarrow> state" where
  "opt_changed_effects O_NTF_APP_ICON s = add_actions A_NTF_UPD (ntf_set_app_icon s)"
| "opt_changed_effects O_NTF_CATEGORY s = add_actions A_NTF_UPD (ntf_set_category s)"
| "opt_changed_effects O_NTF_URGENCY s = add_actions A_NTF_UPD (ntf_set_urgency s)"
| "opt_changed_effects O_SEND_THUMBNAIL s =
     (let s1 = add_actions A_NTF_CHECK_IMAGE s
      in if opt_true s1 O_SEND_THUMBNAIL then add_actions A_QUEUE_SHOT s1 else s1)"
| "opt_changed_effects O_SEND_PROGRESS s = add_actions A_NTF_UPD (ntf_set_progress_bar s)"
| "opt_changed_effects O_SEND_SUB_TEXT s = (add_actions A_NTF_UPD s)\<lparr>rewrite_body := True\<rparr>"
| "opt_changed_effects O_THUMBNAIL_SIZE s = add_actions A_QUEUE_SHOT (thumbnail_ctx_destroy s)"
| "opt_changed_effects O_SCREENSHOT_FLAGS s = add_actions A_QUEUE_SHOT s"
| "opt_changed_effects O_THUMBNAIL_SCALING s = add_actions A_QUEUE_SHOT (thumbnail_ctx_destroy s)"
| "opt_changed_effects O_DISABLE_SCALING s = add_actions A_QUEUE_SHOT (thumbnail_ctx_destroy s)"
| "opt_changed_effects O_FOCUS_MANUAL s = add_actions A_NTF_RST s"
| "opt_changed_effects O_PERFDATA s = (add_actions A_NTF_UPD s)\<lparr>rewrite_body := True\<rparr>"
| "opt_changed_effects O_EXPIRE_TIMEOUT s = s"

text \<open>The loop \<^verbatim>\<open>for (i = 0; i < O_END; i++)\<close>, over the slots still to visit.\<close>

fun opts_run_changed_from ::
  "opts_key list \<Rightarrow> opts_table \<Rightarrow> opts_table \<Rightarrow> state \<Rightarrow> state result" where
  "opts_run_changed_from [] before after s = Inr s"
| "opts_run_changed_from (i # is) before after s =
     (case opt_changed (before i) (after i) of
        Inl x \<Rightarrow> Inl x
      | Inr changed \<Rightarrow>
          opts_run_changed_from is before after
            (if changed then opt_changed_effects i s else s))"

definition opts_run_changed :: "opts_table \<Rightarrow> opts_table \<Rightarrow> state \<Rightarrow> state result" where
  "opts_run_changed before after s = opts_run_changed_from opts_keys before after s"

section \<open>Thumbnail context\<close>

subsection \<open>C arithmetic\<close>

text \<open>
  The value of a finite double is a rational number. \<open>fl64\<close> rounds a rational to the
  nearest binary64 value, ties to even (53 significant bits); it is the rounding of every
  double operation and of the conversion from \<^verbatim>\<open>int64_t\<close>. Results outside the normal
  range (below \<open>2\<^sup>-\<^sup>1\<^sup>0\<^sup>2\<^sup>2\<close> in magnitude and not zero, or \<open>2\<^sup>1\<^sup>0\<^sup>2\<^sup>4\<close> and above) are
  faults of the model.
\<close>

function bit_length :: "int \<Rightarrow> int" where
  "bit_length n = (if n \<le> 0 then 0 else 1 + bit_length (n div 2))"
  by auto
termination
  by (relation "measure nat") auto

declare bit_length.simps [simp del]

definition pow2 :: "int \<Rightarrow> rat" where
  "pow2 e = (if 0 \<le> e then 2 ^ nat e else 1 / 2 ^ nat (- e))"

text \<open>\<open>ilog2 x\<close> is the exponent \<open>e\<close> with \<open>2\<^sup>e \<le> x < 2\<^sup>e\<^sup>+\<^sup>1\<close>, for \<open>x > 0\<close>.\<close>

definition ilog2 :: "rat \<Rightarrow> int" where
  "ilog2 x =
     (let (p, q) = quotient_of x;
          d = bit_length p - bit_length q
      in if pow2 d \<le> x then d else d - 1)"

definition round_half_even :: "rat \<Rightarrow> int" where
  "round_half_even q =
     (let f = \<lfloor>q\<rfloor>; r = q - of_int f
      in if r < 1 / 2 then f else if 1 / 2 < r then f + 1
         else if even f then f else f + 1)"

definition fl64 :: "rat \<Rightarrow> rat result" where
  "fl64 x =
     (if x = 0 then Inr 0
      else
        let e = ilog2 \<bar>x\<bar>;
            u = pow2 (e - 52);
            y = sgn x * of_int (round_half_even (\<bar>x\<bar> / u)) * u
        in if e < - 1022 \<or> 1024 \<le> ilog2 \<bar>y\<bar> then Inl Double_Not_Normal else Inr y)"

definition double_of_int64 :: "int \<Rightarrow> rat result" where
  "double_of_int64 n = fl64 (of_int n)"

definition double_div :: "rat \<Rightarrow> rat \<Rightarrow> rat result" where
  "double_div a b = (if b = 0 then Inl Double_Not_Normal else fl64 (a / b))"

definition double_mul :: "rat \<Rightarrow> rat \<Rightarrow> rat result" where
  "double_mul a b = fl64 (a * b)"

definition INT_MIN :: int where "INT_MIN = - (2 ^ 31)"
definition INT_MAX :: int where "INT_MAX = 2 ^ 31 - 1"

text \<open>The cast \<^verbatim>\<open>(int)d\<close> and the implicit conversion of a double to \<^verbatim>\<open>int\<close>: truncation.\<close>

definition c_trunc :: "rat \<Rightarrow> int" where
  "c_trunc d = (if 0 \<le> d then \<lfloor>d\<rfloor> else \<lceil>d\<rceil>)"

definition int_of_double :: "rat \<Rightarrow> int result" where
  "int_of_double d =
     (let t = c_trunc d
      in if INT_MIN \<le> t \<and> t \<le> INT_MAX then Inr t else Inl Double_To_Int_Range)"

text \<open>
  Multiplication of two \<^verbatim>\<open>int\<close> values. Signed overflow is undefined in C; the model
  wraps around in 32-bit two's complement, which is what the multiplication instruction of
  the usual targets does.
\<close>

definition int_mul :: "int \<Rightarrow> int \<Rightarrow> int" where
  "int_mul a b = (a * b + 2 ^ 31) mod 2 ^ 32 - 2 ^ 31"

text \<open>\<^verbatim>\<open>#define MAX_IMAGE_SIZE 127 * 1024 * 1024\<close>\<close>

definition MAX_IMAGE_SIZE :: int where
  "MAX_IMAGE_SIZE = 127 * 1024 * 1024"

subsection \<open>thumbnail\_ctx\_maybe\_new and thumbnail\_ctx\_process\<close>

text \<open>
  What the handling of a screenshot reply takes from outside. The outcomes of the three
  constructions: \<^verbatim>\<open>sws_getContext\<close>, \<^verbatim>\<open>malloc\<close> and \<^verbatim>\<open>gdk_pixbuf_new_from_data\<close>
  returned a non-\<^verbatim>\<open>NULL\<close> pointer. And what the members \<^verbatim>\<open>u.int64\<close> and \<^verbatim>\<open>u.ba\<close> of an
  \<^verbatim>\<open>mpv_node\<close> hold when the node has another format: the bytes of the union read as a
  64-bit integer, and the byte array at the pointer read from them (\<open>None\<close> for the
  pointer \<^verbatim>\<open>NULL\<close>); both depend on the representation of the node in memory.
\<close>

record thumb_env =
  sws_ok :: bool
  malloc_ok :: bool
  pixbuf_ok :: bool
  other_int64 :: "mpv_node \<Rightarrow> 64 word"
  other_ba :: "mpv_node \<Rightarrow> nat list option"

text \<open>The condition of the first \<^verbatim>\<open>if\<close>: the context can be kept.\<close>

definition ctx_reusable :: "state \<Rightarrow> rat \<Rightarrow> rat \<Rightarrow> rat \<Rightarrow> bool" where
  "ctx_reusable s w h stride =
     (w = of_int (src_w (thumbnail_ctx s)) \<and> h = of_int (src_h (thumbnail_ctx s)) \<and>
      (\<not> opt_true s O_DISABLE_SCALING \<or> stride = of_int (src_stride (thumbnail_ctx s))))"

text \<open>
  The statements from \<^verbatim>\<open>thumbnail_ctx.src_w = src_w\<close> to the end of the \<^verbatim>\<open>if\<close>/\<^verbatim>\<open>else\<close>
  on \<^verbatim>\<open>O_DISABLE_SCALING\<close>, without the call of \<^verbatim>\<open>sws_getContext\<close>: the six dimensions.
\<close>

definition ctx_dimensions :: "state \<Rightarrow> rat \<Rightarrow> rat \<Rightarrow> rat \<Rightarrow> thumbnail_ctx_t result" where
  "ctx_dimensions s w h stride =
     bind_result (int_of_double w) (\<lambda>sw.
     bind_result (int_of_double stride) (\<lambda>ss.
     bind_result (int_of_double h) (\<lambda>sh.
       let c = (thumbnail_ctx s)\<lparr>src_w := sw, src_stride := ss, src_h := sh\<rparr> in
       if opt_true s O_DISABLE_SCALING
       then Inr (c\<lparr>dst_w := sw, dst_stride := ss, dst_h := sh\<rparr>)
       else
         bind_result (double_of_int64 (u_int64 (opts s O_THUMBNAIL_SIZE))) (\<lambda>scaled_size.
         bind_result (double_div scaled_size w) (\<lambda>rw.
         bind_result (double_div scaled_size h) (\<lambda>rh.
           let ratio = min rw rh in
           bind_result (double_mul w ratio) (\<lambda>pw.
           bind_result (int_of_double pw) (\<lambda>iw.
           bind_result (double_mul h ratio) (\<lambda>ph.
           bind_result (int_of_double ph) (\<lambda>ih.
             Inr (c\<lparr>dst_w := max 1 iw, dst_stride := int_mul (max 1 iw) 4,
                    dst_h := max 1 ih\<rparr>)))))))))))"

definition thumbnail_ctx_maybe_new ::
  "thumb_env \<Rightarrow> rat \<Rightarrow> rat \<Rightarrow> rat \<Rightarrow> state \<Rightarrow> state result" where
  "thumbnail_ctx_maybe_new e w h stride s =
     (if ctx_reusable s w h stride then
        bind_result (int_of_double stride) (\<lambda>ss.
          Inr (s\<lparr>thumbnail_ctx := (thumbnail_ctx s)\<lparr>src_stride := ss\<rparr>\<rparr>))
      else
        let s1 = thumbnail_ctx_destroy s in
        bind_result (ctx_dimensions s1 w h stride) (\<lambda>c.
          let s2 = s1\<lparr>thumbnail_ctx := c\<rparr>;
              scaling = \<not> opt_true s2 O_DISABLE_SCALING;
              s3 = (if scaling
                    then (emit (Sws_GetContext (src_w c) (src_h c) (dst_w c) (dst_h c)
                                  (u_int64 (opts s2 O_THUMBNAIL_SCALING))) s2)
                           \<lparr>thumbnail_ctx := c\<lparr>sws := sws_ok e\<rparr>\<rparr>
                    else s2);
              alloc_size = int_mul (dst_stride c) (dst_h c)
          in if scaling \<and> \<not> sws_ok e then Inr (thumbnail_ctx_destroy s3)
             else if alloc_size > MAX_IMAGE_SIZE then Inr (thumbnail_ctx_destroy s3)
             else
               let s4 = emit (Malloc alloc_size) s3 in
               if \<not> malloc_ok e then Inr (thumbnail_ctx_destroy s4)
               else
                 let s5 = emit (Gdk_Pixbuf_New_From_Data (dst_w c) (dst_h c) (dst_stride c))
                            (s4\<lparr>thumbnail_ctx :=
                                  (thumbnail_ctx s4)\<lparr>thumbnail := Some alloc_size\<rparr>\<rparr>)
                 in if \<not> pixbuf_ok e then Inr (thumbnail_ctx_destroy s5)
                    else Inr (ntf_set_image
                           (s5\<lparr>thumbnail_ctx :=
                                 (thumbnail_ctx s5)\<lparr>pixbuf := True\<rparr>\<rparr>))))"

text \<open>
  The pixel data are not modelled: processing a frame is the call of \<^verbatim>\<open>sws_scale\<close> or of
  \<^verbatim>\<open>memcpy\<close> with its length. The timing written to \<^verbatim>\<open>pd_thumbnail\<close> is not modelled.
\<close>

definition thumbnail_ctx_process :: "state \<Rightarrow> state" where
  "thumbnail_ctx_process s =
     (if thumbnail (thumbnail_ctx s) = None then s
      else
        let s1 = (if sws (thumbnail_ctx s) then emit Sws_Scale s
                  else emit (Memcpy (int_mul (dst_stride (thumbnail_ctx s))
                                             (dst_h (thumbnail_ctx s)))) s);
            s2 = (if opt_true s1 O_PERFDATA then s1\<lparr>rewrite_body := True\<rparr> else s1)
        in add_actions A_NTF_UPD s2)"

section \<open>Events\<close>

subsection \<open>Property changes\<close>

text \<open>
  The payload of a property-change event (\<^verbatim>\<open>mpv_event_property\<close>), by its format.
  \<open>Prop_Other\<close> stands for the formats \<^verbatim>\<open>save_prop\<close> sends to its default branch.
\<close>

datatype mpv_event_property =
    Prop_None
  | Prop_String string
  | Prop_Flag int
  | Prop_Int64 int
  | Prop_Double c_double
  | Prop_Node mpv_node
  | Prop_Other

definition get_replace_str :: "char \<Rightarrow> string option" where
  "get_replace_str c =
     (if c = CHR ''<'' then Some ''&lt;''
      else if c = CHR ''>'' then Some ''&gt;''
      else if c = CHR ''&'' then Some ''&amp;''
      else None)"

text \<open>Allocation failure in \<^verbatim>\<open>strdup\<close> and \<^verbatim>\<open>strdupesc\<close> is not modelled here.\<close>

definition strdupesc :: "state \<Rightarrow> string \<Rightarrow> string" where
  "strdupesc s str =
     (if \<not> server_body_markup s then str
      else concat (map (\<lambda>c. case get_replace_str c of None \<Rightarrow> [c] | Some r \<Rightarrow> r) str))"

definition save_prop :: "mpv_event_property \<Rightarrow> observed_prop_userdata \<Rightarrow> state \<Rightarrow> state" where
  "save_prop ev ud s =
     s\<lparr>observed_props := (observed_props s)
        (ud := (case ev of
                  Prop_String str \<Rightarrow>
                    Node_String (Some (if prop_string_needs_escaping ud then strdupesc s str
                                       else str))
                | Prop_Flag f \<Rightarrow> Node_Flag f
                | Prop_Int64 n \<Rightarrow> Node_Int64 n
                | Prop_Double d \<Rightarrow> Node_Double d
                | _ \<Rightarrow> Node_None))\<rparr>"

text \<open>The loop of \<^verbatim>\<open>mouse_is_hovered\<close> over the entries of the map.\<close>

fun hover_lookup :: "(string \<times> mpv_node) list \<Rightarrow> bool" where
  "hover_lookup [] = False"
| "hover_lookup ((key, value) # rest) =
     (case value of
        Node_Flag f \<Rightarrow> (if key = ''hover'' then f \<noteq> 0 else hover_lookup rest)
      | _ \<Rightarrow> hover_lookup rest)"

definition mouse_is_hovered :: "mpv_event_property \<Rightarrow> bool" where
  "mouse_is_hovered ev =
     (case ev of Prop_Node (Node_Map list) \<Rightarrow> hover_lookup list | _ \<Rightarrow> False)"

text \<open>Of \<^verbatim>\<open>metadata_update\<close> only \<^verbatim>\<open>metadata_avail\<close> is modelled, not the tag strings.\<close>

definition metadata_update :: "mpv_event_property \<Rightarrow> state \<Rightarrow> state" where
  "metadata_update ev s =
     s\<lparr>metadata_avail := (case ev of Prop_Node (Node_Map list) \<Rightarrow> True | _ \<Rightarrow> False)\<rparr>"

fun u_double :: "mpv_node \<Rightarrow> c_double" where
  "u_double (Node_Double d) = d"
| "u_double _ = Finite 0"

fun isnormal :: "c_double \<Rightarrow> bool" where
  "isnormal (Finite r) = (r \<noteq> 0 \<and> - 1022 \<le> ilog2 \<bar>r\<bar>)"
| "isnormal _ = False"

definition LONG_MIN :: int where
  "LONG_MIN = - (2 ^ 63)"

definition LONG_MAX :: int where
  "LONG_MAX = 2 ^ 63 - 1"

text \<open>
  \<^verbatim>\<open>lround\<close>: to the nearest integer, halves away from zero. The result for a value
  outside the range of \<^verbatim>\<open>long\<close> is unspecified in C; it is \<^verbatim>\<open>LONG_MIN\<close> on x86-64, the
  result of the conversion instruction, and the model follows that.
\<close>

fun lround :: "c_double \<Rightarrow> int" where
  "lround (Finite r) =
     (let v = (if 0 \<le> r then \<lfloor>r + 1 / 2\<rfloor> else - \<lfloor>- r + 1 / 2\<rfloor>)
      in if LONG_MIN \<le> v \<and> v \<le> LONG_MAX then v else LONG_MIN)"
| "lround _ = LONG_MIN"

text \<open>
  \<^verbatim>\<open>opts_copy\<close>, \<^verbatim>\<open>opts_from_file\<close>, \<^verbatim>\<open>opts_from_runtime\<close> and \<^verbatim>\<open>set_opt\<close> (copying with
  \<^verbatim>\<open>strdup\<close>, which may fail, and parsing of the configuration text) are not modelled.
  The tables they produce are inputs of the event: the copy of the active table taken
  before the change, the table layered from defaults and file (only used by a reload), and
  the new active table.
\<close>

record opts_env =
  copied_previous :: opts_table
  layered_base :: opts_table
  layered_opts :: opts_table

definition on_percent_pos :: "state \<Rightarrow> state" where
  "on_percent_pos s =
     (let s1 = (if \<not> op_true s P_CURRENT_TRACKS__VIDEO__IMAGE
                then add_actions A_QUEUE_SHOT s else s);
          old_rounded = percent_pos_rounded s1;
          d = u_double (observed_props s1 P_PERCENT_POS);
          s2 = s1\<lparr>percent_pos_rounded :=
                   (if op_avail s1 P_PERCENT_POS \<and> isnormal d then word_of_int (lround d)
                    else 0)\<rparr>
      in if old_rounded \<noteq> percent_pos_rounded s2
         then (add_actions A_NTF_UPD (ntf_set_progress_bar s2))\<lparr>rewrite_body := True\<rparr>
         else s2)"

definition on_mouse_pos :: "mpv_event_property \<Rightarrow> state \<Rightarrow> state" where
  "on_mouse_pos ev s =
     (let old_mouse_hovered = mouse_hovered s;
          s1 = s\<lparr>mouse_hovered := mouse_is_hovered ev\<rparr>
      in if \<not> old_mouse_hovered \<and> mouse_hovered s1 then add_actions A_NTF_CLOSE s1 else s1)"

definition on_script_opts :: "opts_env \<Rightarrow> state \<Rightarrow> state result" where
  "on_script_opts oe s =
     (let s1 = s\<lparr>opts := layered_opts oe\<rparr>
      in opts_run_changed (copied_previous oe) (opts s1) s1)"

text \<open>
  The switch on \<^verbatim>\<open>event->reply_userdata\<close>. The cases that only fetch OSD strings for the
  body text or set the log level change nothing that is modelled.
\<close>

fun property_switch ::
  "opts_env \<Rightarrow> observed_prop_userdata \<Rightarrow> mpv_event_property \<Rightarrow> state \<Rightarrow> state result" where
  "property_switch oe P_APP_NAME ev s = Inr (ntf_set_app_name s)"
| "property_switch oe P_IDLE_ACTIVE ev s =
     Inr ((ntf_set_progress_bar s)\<lparr>rewrite_body := True\<rparr>)"
| "property_switch oe P_METADATA ev s = Inr (metadata_update ev s)"
| "property_switch oe P_MOUSE_POS ev s = Inr (on_mouse_pos ev s)"
| "property_switch oe P_OPTIONS_SCRIPT_OPTS ev s = on_script_opts oe s"
| "property_switch oe P_PERCENT_POS ev s = Inr (on_percent_pos s)"
| "property_switch oe P_PLAYLIST_COUNT ev s = Inr (ntf_set_progress_bar s)"
| "property_switch oe P_PLAYLIST_POS ev s = Inr (ntf_set_progress_bar s)"
| "property_switch oe P_USER_DATA__DETECT_IMAGE__DETECTED ev s = Inr (ntf_set_progress_bar s)"
| "property_switch oe _ ev s = Inr s"

definition on_property_change ::
  "opts_env \<Rightarrow> observed_prop_userdata \<Rightarrow> mpv_event_property \<Rightarrow> state \<Rightarrow> state result" where
  "on_property_change oe ud ev s =
     (let s1 = save_prop ev ud s;
          s2 = (if \<not> prop_action_if_true ud \<or> op_true s1 ud
                then add_actions (prop_action ud) s1 else s1);
          s3 = (if prop_part_of_summary ud then s2\<lparr>rewrite_summary := True\<rparr> else s2);
          s4 = (if prop_part_of_body ud then s3\<lparr>rewrite_body := True\<rparr> else s3)
      in property_switch oe ud ev s4)"

subsection \<open>Screenshot replies\<close>

record shot_fields =
  i_ba :: "nat list option"
  i_w :: int
  i_h :: int
  i_stride :: int

text \<open>
  The loop over the entries of the reply. The C code reads \<^verbatim>\<open>value->u.ba\<close> and
  \<^verbatim>\<open>value->u.int64\<close> without looking at the format of the value.
\<close>

fun read_int64 :: "thumb_env \<Rightarrow> mpv_node \<Rightarrow> int" where
  "read_int64 e (Node_Int64 n) = n"
| "read_int64 e v = sint (other_int64 e v)"

fun read_ba :: "thumb_env \<Rightarrow> mpv_node \<Rightarrow> nat list option" where
  "read_ba e (Node_Byte_Array b) = Some b"
| "read_ba e v = other_ba e v"

fun read_shot_fields ::
  "thumb_env \<Rightarrow> (string \<times> mpv_node) list \<Rightarrow> shot_fields \<Rightarrow> shot_fields" where
  "read_shot_fields e [] a = a"
| "read_shot_fields e ((key, value) # rest) a =
     (if key = ''data'' then read_shot_fields e rest (a\<lparr>i_ba := read_ba e value\<rparr>)
      else if key = ''w'' then read_shot_fields e rest (a\<lparr>i_w := read_int64 e value\<rparr>)
      else if key = ''h'' then read_shot_fields e rest (a\<lparr>i_h := read_int64 e value\<rparr>)
      else if key = ''stride'' then
        read_shot_fields e rest (a\<lparr>i_stride := read_int64 e value\<rparr>)
      else read_shot_fields e rest a)"

definition on_done_screenshot :: "thumb_env \<Rightarrow> mpv_node \<Rightarrow> state \<Rightarrow> state result" where
  "on_done_screenshot te command_node s =
     (if \<not> ntf_image_enabled s then Inr s
      else
        let s1 = s\<lparr>screenshot_in_progress := False\<rparr> in
        case command_node of
          Node_Map list \<Rightarrow>
            let f = read_shot_fields te list \<lparr>i_ba = None, i_w = 0, i_h = 0, i_stride = 0\<rparr>
            in if i_ba f = None \<or> i_w f = 0 \<or> i_h f = 0 \<or> i_stride f = 0 then Inr s1
               else
                 bind_result (double_of_int64 (i_w f)) (\<lambda>w.
                 bind_result (double_of_int64 (i_h f)) (\<lambda>h.
                 bind_result (double_of_int64 (i_stride f)) (\<lambda>stride.
                 bind_result (thumbnail_ctx_maybe_new te w h stride s1)
                   (\<lambda>s2. Inr (thumbnail_ctx_process s2)))))
        | _ \<Rightarrow> Inr s1)"

subsection \<open>Client messages\<close>

definition reload_config :: "opts_env \<Rightarrow> state \<Rightarrow> state result" where
  "reload_config oe s =
     (let s1 = s\<lparr>opts_base := layered_base oe, opts := layered_opts oe\<rparr>
      in opts_run_changed (copied_previous oe) (opts s1) s1)"

definition on_client_message :: "opts_env \<Rightarrow> string list \<Rightarrow> state \<Rightarrow> state result" where
  "on_client_message oe args s =
     (case args of
        [] \<Rightarrow> Inr s
      | a # _ \<Rightarrow>
          if a = ''close'' then Inr ((add_actions A_NTF_CLOSE s)\<lparr>force_open := False\<rparr>)
          else if a = ''open'' then Inr ((add_actions A_NTF_RST s)\<lparr>force_open := True\<rparr>)
          else if a = ''reload-config'' then reload_config oe s
          else Inr s)"

subsection \<open>The event loop\<close>

text \<open>
  An event as \<^verbatim>\<open>mpv_wait_event\<close> returns it, together with the outcomes of the external
  calls its handler makes. The end of the list is \<^verbatim>\<open>MPV_EVENT_NONE\<close>.
\<close>

datatype mpv_event =
    Event_Shutdown
  | Event_Video_Reconfig
  | Event_Seek
  | Event_Command_Reply mpv_node thumb_env
  | Event_Client_Message "string list" opts_env
  | Event_Property_Change observed_prop_userdata mpv_event_property opts_env
  | Event_Other

text \<open>The switch on \<^verbatim>\<open>event->event_id\<close> for one event that does not end the loop.\<close>

fun handle_event :: "mpv_event \<Rightarrow> state \<Rightarrow> state result" where
  "handle_event Event_Video_Reconfig s = Inr (add_actions A_FORCED_QUEUE_SHOT s)"
| "handle_event Event_Seek s = Inr (add_actions A_NTF_RST s)"
| "handle_event (Event_Command_Reply command_node te) s = on_done_screenshot te command_node s"
| "handle_event (Event_Client_Message args oe) s = on_client_message oe args s"
| "handle_event (Event_Property_Change ud ev oe) s = on_property_change oe ud ev s"
| "handle_event _ s = Inr s"

fun dispatch_mpv_events :: "mpv_event list \<Rightarrow> state \<Rightarrow> (int \<times> state) result" where
  "dispatch_mpv_events [] s = Inr (0, s)"
| "dispatch_mpv_events (Event_Shutdown # evs) s = Inr (- 1, s)"
| "dispatch_mpv_events (ev # evs) s =
     (case handle_event ev s of
        Inl x \<Rightarrow> Inl x
      | Inr s1 \<Rightarrow> dispatch_mpv_events evs s1)"

text \<open>
  One turn of the loop in \<^verbatim>\<open>mpv_open_cplugin\<close>. \<open>poll_result\<close> is what \<^verbatim>\<open>poll\<close>
  reports: its failure, and for the wake-up pipe and the timer whether \<^verbatim>\<open>POLLIN\<close> or an
  error flag is set. A turn either goes on to the next one or leaves the loop.
\<close>

record poll_result =
  poll_failed :: bool
  wakeup_in :: bool
  wakeup_err :: bool
  timer_in :: bool
  timer_err :: bool

datatype loop_step = Continue state | Break state

text \<open>The turn up to the call of \<^verbatim>\<open>done()\<close>.\<close>

definition loop_accumulate :: "poll_result \<Rightarrow> mpv_event list \<Rightarrow> state \<Rightarrow> loop_step result" where
  "loop_accumulate p evs s =
     (if poll_failed p then Inr (Break s)
      else
        bind_result
          (if wakeup_in p then
             bind_result (dispatch_mpv_events evs s)
               (\<lambda>(r, s1). Inr (if r = - 1 then Break s1 else Continue s1))
           else if wakeup_err p then Inr (Break s)
           else Inr (Continue s))
          (\<lambda>st. case st of
                  Break s1 \<Rightarrow> Inr (Break s1)
                | Continue s1 \<Rightarrow>
                    if timer_in p then Inr (Continue (add_actions A_NTF_CLOSE s1))
                    else if timer_err p then Inr (Break s1)
                    else Inr (Continue s1)))"

definition loop_turn ::
  "poll_result \<Rightarrow> mpv_event list \<Rightarrow> done_env \<Rightarrow> state \<Rightarrow> loop_step result" where
  "loop_turn p evs de s =
     bind_result (loop_accumulate p evs s)
       (\<lambda>st. case st of
               Break s1 \<Rightarrow> Inr (Break s1)
             | Continue s1 \<Rightarrow> Inr (Continue (done_fn de s1)))"

section \<open>Notions used to state the properties\<close>

definition eligible :: "state \<Rightarrow> bool" where
  "eligible s = ((\<not> player_considered_focused s \<or> force_open s) \<and>
     ((metadata_avail s \<and> op_avail s P_TIME_POS) \<or> op_true s P_IDLE_ACTIVE))"

definition image_disabling :: "state \<Rightarrow> bool" where
  "image_disabling s = (ntf_image_enabled s \<and> \<not> ntf_image_enabled (ntf_check_image s))"

definition new_calls :: "state \<Rightarrow> state \<Rightarrow> call list" where
  "new_calls s s' = drop (length (calls s)) (calls s')"

definition calls_extend :: "state \<Rightarrow> state \<Rightarrow> bool" where
  "calls_extend s s' = (\<exists>cs. calls s' = calls s @ cs)"

definition destroy_calls :: "call set" where
  "destroy_calls =
     {Free, G_Object_Unref, Sws_FreeContext, Notify_Notification_Set_Image_From_Pixbuf False}"

definition is_prelude_call :: "call \<Rightarrow> bool" where
  "is_prelude_call c = (c \<in> destroy_calls \<or> c \<in> range Mpv_Command_Async)"

definition initial_state :: state where
  "initial_state =
     \<lparr>done_actions = 0, ntf_image_enabled = False, rewrite_summary = False,
      rewrite_body = False, metadata_avail = False, mouse_hovered = False,
      screenshot_in_progress = False, percent_pos_rounded = 0, force_open = False,
      thumbnail_ctx = thumbnail_ctx_zero, opts_base = opts_defaults, opts = opts_defaults,
      observed_props = (\<lambda>_. Node_None), timer_armed = False, ntf = True,
      notify_initted = True, server_body_markup = False, mpv_has_app_name = False,
      calls = []\<rparr>"

definition same_opts_env :: opts_env where
  "same_opts_env =
     \<lparr>copied_previous = opts_defaults, layered_base = opts_defaults,
      layered_opts = opts_defaults\<rparr>"

definition forced_open_state :: state where
  "forced_open_state = initial_state\<lparr>force_open := True\<rparr>"

definition all_ok_env :: done_env where
  "all_ok_env =
     \<lparr>queue_async_ok = True, rst_async_ok = True,
      ntf_outcomes = \<lparr>show_ok = True, init_ok = True, server_caps = [''body'', ''body-markup''], new_ok = True\<rparr>\<rparr>"

definition idle_props :: "observed_prop_userdata \<Rightarrow> mpv_node" where
  "idle_props = (\<lambda>_. Node_None)(P_IDLE_ACTIVE := Node_Flag 1)"

definition close_reset_state :: state where
  "close_reset_state =
     initial_state\<lparr>done_actions := A_NTF_CLOSE OR A_NTF_RST OR A_NTF_UPD\<rparr>"

definition idle_reset_state :: state where
  "idle_reset_state =
     initial_state\<lparr>done_actions := A_NTF_RST OR A_NTF_UPD, observed_props := idle_props\<rparr>"

definition hovered_state :: state where
  "hovered_state = idle_reset_state\<lparr>mouse_hovered := True\<rparr>"

definition enabled_idle_state :: state where
  "enabled_idle_state =
     initial_state\<lparr>ntf_image_enabled := True, observed_props := idle_props\<rparr>"

definition hover_event :: mpv_event_property where
  "hover_event = Prop_Node (Node_Map [(''hover'', Node_Flag 1)])"

definition result_ctx :: "state result \<Rightarrow> thumbnail_ctx_t option" where
  "result_ctx r = (case r of Inl x \<Rightarrow> None | Inr s \<Rightarrow> Some (thumbnail_ctx s))"

definition ok_thumb_env :: thumb_env where
  "ok_thumb_env =
     \<lparr>sws_ok = True, malloc_ok = True, pixbuf_ok = True, other_int64 = (\<lambda>v. 0),
      other_ba = (\<lambda>v. None)\<rparr>"

definition size65_state :: state where
  "size65_state = initial_state\<lparr>opts := opts_defaults(O_THUMBNAIL_SIZE := Node_Int64 65)\<rparr>"

definition build_fails :: "thumb_env \<Rightarrow> state \<Rightarrow> thumbnail_ctx_t \<Rightarrow> bool" where
  "build_fails e s c =
     ((\<not> opt_true s O_DISABLE_SCALING \<and> \<not> sws_ok e) \<or>
      MAX_IMAGE_SIZE < int_mul (dst_stride c) (dst_h c) \<or> \<not> malloc_ok e \<or>
      \<not> pixbuf_ok e)"

definition noscale_state :: state where
  "noscale_state = initial_state\<lparr>opts := opts_defaults(O_DISABLE_SCALING := Node_Flag 1)\<rparr>"

definition size32768_state :: state where
  "size32768_state =
     initial_state\<lparr>opts := opts_defaults(O_THUMBNAIL_SIZE := Node_Int64 32768)\<rparr>"

definition big_ctx :: thumbnail_ctx_t where
  "big_ctx = thumbnail_ctx_zero\<lparr>src_w := 8192, src_stride := 32768, src_h := 8192,
     dst_w := 8192, dst_stride := 32768, dst_h := 8192\<rparr>"

definition result_calls :: "state result \<Rightarrow> call list option" where
  "result_calls r = (case r of Inl x \<Rightarrow> None | Inr s \<Rightarrow> Some (calls s))"

definition outstanding_state :: state where
  "outstanding_state =
     initial_state\<lparr>ntf_image_enabled := True, timer_armed := True,
       screenshot_in_progress := True\<rparr>"

definition frame_reply :: mpv_node where
  "frame_reply =
     Node_Map [(''data'', Node_Byte_Array [0, 0, 0, 255]), (''w'', Node_Int64 1),
               (''h'', Node_Int64 1), (''stride'', Node_Int64 4)]"

definition actions_le :: "actions \<Rightarrow> actions \<Rightarrow> bool" where
  "actions_le a b = (a AND b = a)"

definition busy_poll :: poll_result where
  "busy_poll =
     \<lparr>poll_failed = False, wakeup_in = True, wakeup_err = False, timer_in = True,
      timer_err = False\<rparr>"

definition seek_then_reconfig :: state where
  "seek_then_reconfig =
     add_actions A_FORCED_QUEUE_SHOT (add_actions A_NTF_RST initial_state)"

definition check_image_state :: state where
  "check_image_state = enabled_idle_state\<lparr>done_actions := A_NTF_CHECK_IMAGE\<rparr>"

datatype mpv_format =
    MPV_FORMAT_NONE
  | MPV_FORMAT_STRING
  | MPV_FORMAT_FLAG
  | MPV_FORMAT_INT64
  | MPV_FORMAT_DOUBLE
  | MPV_FORMAT_NODE_ARRAY
  | MPV_FORMAT_NODE_MAP
  | MPV_FORMAT_BYTE_ARRAY

fun format :: "mpv_node \<Rightarrow> mpv_format" where
  "format Node_None = MPV_FORMAT_NONE"
| "format (Node_String s) = MPV_FORMAT_STRING"
| "format (Node_Flag f) = MPV_FORMAT_FLAG"
| "format (Node_Int64 n) = MPV_FORMAT_INT64"
| "format (Node_Double d) = MPV_FORMAT_DOUBLE"
| "format (Node_Map m) = MPV_FORMAT_NODE_MAP"
| "format (Node_Array a) = MPV_FORMAT_NODE_ARRAY"
| "format (Node_Byte_Array b) = MPV_FORMAT_BYTE_ARRAY"

definition null_icon_opts :: opts_table where
  "null_icon_opts = opts_defaults(O_NTF_APP_ICON := Node_String None)"

section \<open>Properties\<close>

lemma c_true_flag: "n < 32 \<Longrightarrow> c_true (a AND push_bit n 1) \<longleftrightarrow> bit a n"
  by (simp add: c_true_def and_exp_eq_0_iff_not_bit)

lemma flag_bits:
  "c_true (a AND A_NTF_RST) \<longleftrightarrow> bit a 0"
  "c_true (a AND A_NTF_UPD) \<longleftrightarrow> bit a 1"
  "c_true (a AND A_NTF_CLOSE) \<longleftrightarrow> bit a 2"
  "c_true (a AND A_QUEUE_SHOT) \<longleftrightarrow> bit a 3"
  "c_true (a AND A_FORCED_QUEUE_SHOT) \<longleftrightarrow> bit a 4"
  "c_true (a AND A_NTF_CHECK_IMAGE) \<longleftrightarrow> bit a 5"
  unfolding A_NTF_RST_def A_NTF_UPD_def A_NTF_CLOSE_def A_QUEUE_SHOT_def
    A_FORCED_QUEUE_SHOT_def A_NTF_CHECK_IMAGE_def
  by (simp_all only: c_true_flag)

lemma bit_flags:
  "bit A_NTF_RST n \<longleftrightarrow> n = 0"
  "bit A_NTF_UPD n \<longleftrightarrow> n = 1"
  "bit A_NTF_CLOSE n \<longleftrightarrow> n = 2"
  "bit A_QUEUE_SHOT n \<longleftrightarrow> n = 3"
  "bit A_FORCED_QUEUE_SHOT n \<longleftrightarrow> n = 4"
  "bit A_NTF_CHECK_IMAGE n \<longleftrightarrow> n = 5"
  unfolding A_NTF_RST_def A_NTF_UPD_def A_NTF_CLOSE_def A_QUEUE_SHOT_def
    A_FORCED_QUEUE_SHOT_def A_NTF_CHECK_IMAGE_def
  by (auto simp only: bit_push_bit_iff bit_1_iff possible_bit_word len_of_numeral_defs simp_thms)

lemmas flag_simps = flag_bits bit_or_iff bit_flags
lemmas focus_defs = player_considered_focused_def op_true_def opt_true_def op_avail_def

lemma da_out:
  "(s\<lparr>done_actions := a\<rparr>)\<lparr>ntf_image_enabled := v1\<rparr> = (s\<lparr>ntf_image_enabled := v1\<rparr>)\<lparr>done_actions := a\<rparr>"
  "(s\<lparr>done_actions := a\<rparr>)\<lparr>rewrite_summary := v2\<rparr> = (s\<lparr>rewrite_summary := v2\<rparr>)\<lparr>done_actions := a\<rparr>"
  "(s\<lparr>done_actions := a\<rparr>)\<lparr>rewrite_body := v3\<rparr> = (s\<lparr>rewrite_body := v3\<rparr>)\<lparr>done_actions := a\<rparr>"
  "(s\<lparr>done_actions := a\<rparr>)\<lparr>screenshot_in_progress := v4\<rparr> = (s\<lparr>screenshot_in_progress := v4\<rparr>)\<lparr>done_actions := a\<rparr>"
  "(s\<lparr>done_actions := a\<rparr>)\<lparr>thumbnail_ctx := v5\<rparr> = (s\<lparr>thumbnail_ctx := v5\<rparr>)\<lparr>done_actions := a\<rparr>"
  "(s\<lparr>done_actions := a\<rparr>)\<lparr>timer_armed := v6\<rparr> = (s\<lparr>timer_armed := v6\<rparr>)\<lparr>done_actions := a\<rparr>"
  "(s\<lparr>done_actions := a\<rparr>)\<lparr>ntf := v7\<rparr> = (s\<lparr>ntf := v7\<rparr>)\<lparr>done_actions := a\<rparr>"
  "(s\<lparr>done_actions := a\<rparr>)\<lparr>notify_initted := v8\<rparr> = (s\<lparr>notify_initted := v8\<rparr>)\<lparr>done_actions := a\<rparr>"
  "(s\<lparr>done_actions := a\<rparr>)\<lparr>server_body_markup := v9\<rparr> = (s\<lparr>server_body_markup := v9\<rparr>)\<lparr>done_actions := a\<rparr>"
  by simp_all

lemma emit_da: "emit c (s\<lparr>done_actions := a\<rparr>) = (emit c s)\<lparr>done_actions := a\<rparr>"
  by (simp add: emit_def)

lemma sel_da:
  "opt_true (s\<lparr>done_actions := a\<rparr>) k = opt_true s k"
  "op_true (s\<lparr>done_actions := a\<rparr>) p = op_true s p"
  "op_avail (s\<lparr>done_actions := a\<rparr>) p = op_avail s p"
  "player_considered_focused (s\<lparr>done_actions := a\<rparr>) = player_considered_focused s"
  by (simp_all add: focus_defs)

lemmas da0 = da_out emit_da sel_da

lemma basic_da:
  "timer_disarm (s\<lparr>done_actions := a\<rparr>) = (timer_disarm s)\<lparr>done_actions := a\<rparr>"
  "ntf_set_image (s\<lparr>done_actions := a\<rparr>) = (ntf_set_image s)\<lparr>done_actions := a\<rparr>"
  "ntf_set_progress_bar (s\<lparr>done_actions := a\<rparr>) = (ntf_set_progress_bar s)\<lparr>done_actions := a\<rparr>"
  "ntf_set_urgency (s\<lparr>done_actions := a\<rparr>) = (ntf_set_urgency s)\<lparr>done_actions := a\<rparr>"
  "ntf_set_category (s\<lparr>done_actions := a\<rparr>) = (ntf_set_category s)\<lparr>done_actions := a\<rparr>"
  "ntf_set_app_name (s\<lparr>done_actions := a\<rparr>) = (ntf_set_app_name s)\<lparr>done_actions := a\<rparr>"
  "ntf_set_app_icon (s\<lparr>done_actions := a\<rparr>) = (ntf_set_app_icon s)\<lparr>done_actions := a\<rparr>"
  "ntf_close (s\<lparr>done_actions := a\<rparr>) = (ntf_close s)\<lparr>done_actions := a\<rparr>"
  by (simp_all add: timer_disarm_def ntf_set_image_def ntf_set_progress_bar_def
      ntf_set_urgency_def ntf_set_category_def ntf_set_app_name_def ntf_set_app_icon_def
      ntf_close_def da0)

lemma thumbnail_ctx_destroy_da:
  "thumbnail_ctx_destroy (s\<lparr>done_actions := a\<rparr>) = (thumbnail_ctx_destroy s)\<lparr>done_actions := a\<rparr>"
  by (simp add: thumbnail_ctx_destroy_def Let_def emit_def ntf_set_image_def)

lemma queue_screenshot_da:
  "queue_screenshot ok f (s\<lparr>done_actions := a\<rparr>) = (queue_screenshot ok f s)\<lparr>done_actions := a\<rparr>"
  by (simp add: queue_screenshot_def Let_def da0)

lemma ntf_uninit_da:
  "ntf_uninit (s\<lparr>done_actions := a\<rparr>) = (ntf_uninit s)\<lparr>done_actions := a\<rparr>"
  by (simp add: ntf_uninit_def Let_def da0 basic_da)

lemma ntf_init_da:
  "ntf_init e (s\<lparr>done_actions := a\<rparr>) = (ntf_init e s)\<lparr>done_actions := a\<rparr>"
  by (simp add: ntf_init_def ntf_update_server_caps_def Let_def da0 basic_da ntf_uninit_da)

lemma fold_reobserve_da:
  "fold (reobserve s0) ps (s\<lparr>done_actions := a\<rparr>) = (fold (reobserve s0) ps s)\<lparr>done_actions := a\<rparr>"
  by (induction ps arbitrary: s) (simp_all add: reobserve_def da0)

lemma reobserve_s0_da: "reobserve (s0\<lparr>done_actions := a\<rparr>) = reobserve s0"
  by (simp add: reobserve_def fun_eq_iff)

lemma ntf_reinit_da:
  "ntf_reinit e (s\<lparr>done_actions := a\<rparr>) = (ntf_reinit e s)\<lparr>done_actions := a\<rparr>"
  by (simp add: ntf_reinit_def Let_def fold_reobserve_da reobserve_s0_da ntf_init_da ntf_uninit_da)

lemma ntf_upd_da:
  "ntf_upd e (s\<lparr>done_actions := a\<rparr>) = (ntf_upd e s)\<lparr>done_actions := a\<rparr>"
  by (simp add: ntf_upd_def Let_def da0 ntf_reinit_da)

lemma ntf_rst_da:
  "ntf_rst e (s\<lparr>done_actions := a\<rparr>) = (ntf_rst e s)\<lparr>done_actions := a\<rparr>"
  by (simp add: ntf_rst_def Let_def da0 basic_da queue_screenshot_da ntf_upd_da)

lemma finished_da: "finished (s\<lparr>done_actions := a\<rparr>) = finished s"
  by (simp add: finished_def)

lemma done_notify_da:
  "finished (done_notify e (s\<lparr>done_actions := a\<rparr>)) =
     finished (if bit a 2 \<and> \<not> force_open s then ntf_close (timer_disarm s)
      else if eligible s then
        (if bit a 0 then ntf_rst e s
         else if bit a 1 \<and> (timer_armed s \<or> force_open s) then ntf_upd (ntf_outcomes e) s
         else s)
      else s)"
  by (auto simp add: done_notify_def eligible_def flag_bits da0 basic_da ntf_rst_da ntf_upd_da finished_da)

lemma done_queue_shot_da:
  "done_queue_shot e (s\<lparr>done_actions := a\<rparr>) =
     (if bit a 4 then queue_screenshot (queue_async_ok e) True s
      else if bit a 3 then queue_screenshot (queue_async_ok e) False s else s)\<lparr>done_actions := a\<rparr>"
  by (simp add: done_queue_shot_def flag_bits queue_screenshot_da)

lemma ntf_check_image_da:
  "ntf_check_image (s\<lparr>done_actions := a\<rparr>) =
     (ntf_check_image s)\<lparr>done_actions := (if image_disabling s then a OR A_NTF_UPD else a)\<rparr>"
  by (auto simp add: ntf_check_image_def image_disabling_def Let_def da0 thumbnail_ctx_destroy_da
      thumbnail_ctx_destroy_def ntf_set_image_def emit_def)

lemma done_fn_da:
  "done_fn e (s\<lparr>done_actions := a\<rparr>) =
    (let s1 = (if bit a 5 then ntf_check_image s else s);
         a1 = (if bit a 5 \<and> image_disabling s then a OR A_NTF_UPD else a);
         s2 = (if bit a 4 then queue_screenshot (queue_async_ok e) True s1
               else if bit a 3 then queue_screenshot (queue_async_ok e) False s1 else s1)
     in finished (if bit a 2 \<and> \<not> force_open s2 then ntf_close (timer_disarm s2)
      else if eligible s2 then
        (if bit a 0 then ntf_rst e s2
         else if bit a1 1 \<and> (timer_armed s2 \<or> force_open s2) then ntf_upd (ntf_outcomes e) s2
         else s2)
      else s2))"
proof -
  define s1 where "s1 = (if bit a 5 then ntf_check_image s else s)"
  define a1 where "a1 = (if bit a 5 \<and> image_disabling s then a OR A_NTF_UPD else a)"
  define s2 where "s2 = (if bit a 4 then queue_screenshot (queue_async_ok e) True s1
               else if bit a 3 then queue_screenshot (queue_async_ok e) False s1 else s1)"
  have 1: "done_check_image (s\<lparr>done_actions := a\<rparr>) = s1\<lparr>done_actions := a1\<rparr>"
    by (simp add: done_check_image_def flag_bits ntf_check_image_da s1_def a1_def)
  have 2: "bit a1 n = bit a n" if "n \<noteq> 1" for n
    using that by (simp add: flag_simps a1_def)
  have 3: "done_queue_shot e (s1\<lparr>done_actions := a1\<rparr>) = s2\<lparr>done_actions := a1\<rparr>"
    unfolding done_queue_shot_da s2_def by (simp only: 2 [of 4] 2 [of 3] simp_thms numeral_eq_one_iff num.simps)
  have 4: "bit a1 2 = bit a 2" "bit a1 0 = bit a 0"
    by (simp_all add: 2)
  have "done_fn e (s\<lparr>done_actions := a\<rparr>) = finished (done_notify e (s2\<lparr>done_actions := a1\<rparr>))"
    by (simp only: done_fn_def done_main_def 1 3)
  also have "\<dots> = finished (if bit a 2 \<and> \<not> force_open s2 then ntf_close (timer_disarm s2)
      else if eligible s2 then
        (if bit a 0 then ntf_rst e s2
         else if bit a1 1 \<and> (timer_armed s2 \<or> force_open s2) then ntf_upd (ntf_outcomes e) s2
         else s2)
      else s2)"
    by (simp only: done_notify_da 4)
  finally show ?thesis
    by (simp only: Let_def s1_def [symmetric] a1_def [symmetric] s2_def [symmetric])
qed

lemma pre_frame:
  "force_open (ntf_check_image s) = force_open s"
  "force_open (queue_screenshot ok f s) = force_open s"
  "timer_armed (ntf_check_image s) = timer_armed s"
  "timer_armed (queue_screenshot ok f s) = timer_armed s"
  "ntf (ntf_check_image s) = ntf s"
  "ntf (queue_screenshot ok f s) = ntf s"
  "metadata_avail (ntf_check_image s) = metadata_avail s"
  "metadata_avail (queue_screenshot ok f s) = metadata_avail s"
  "mouse_hovered (ntf_check_image s) = mouse_hovered s"
  "mouse_hovered (queue_screenshot ok f s) = mouse_hovered s"
  "observed_props (ntf_check_image s) = observed_props s"
  "observed_props (queue_screenshot ok f s) = observed_props s"
  "opts (ntf_check_image s) = opts s"
  "opts (queue_screenshot ok f s) = opts s"
  by (simp_all add: ntf_check_image_def thumbnail_ctx_destroy_def ntf_set_image_def
      queue_screenshot_def emit_def Let_def)

lemma pre_eligible:
  "eligible (ntf_check_image s) = eligible s"
  "eligible (queue_screenshot ok f s) = eligible s"
  "player_considered_focused (ntf_check_image s) = player_considered_focused s"
  "player_considered_focused (queue_screenshot ok f s) = player_considered_focused s"
  by (simp_all add: eligible_def focus_defs pre_frame)

lemma done_fn_cong:
  assumes "\<And>n. n \<noteq> 0 \<Longrightarrow> n \<noteq> 1 \<Longrightarrow> bit a n = bit b n"
    and "(bit a 0 \<and> bit b 0) \<or> (bit a 2 \<and> \<not> force_open s)"
  shows "done_fn e (s\<lparr>done_actions := a\<rparr>) = done_fn e (s\<lparr>done_actions := b\<rparr>)"
proof -
  have b: "bit b 5 = bit a 5" "bit b 4 = bit a 4" "bit b 3 = bit a 3" "bit b 2 = bit a 2"
    by (simp_all add: assms(1))
  define s1 where "s1 = (if bit a 5 then ntf_check_image s else s)"
  define s2 where "s2 = (if bit a 4 then queue_screenshot (queue_async_ok e) True s1
               else if bit a 3 then queue_screenshot (queue_async_ok e) False s1 else s1)"
  have fo: "force_open s2 = force_open s"
    by (simp add: s1_def s2_def pre_frame)
  from assms(2) show ?thesis
    unfolding done_fn_da Let_def b s1_def [symmetric] s2_def [symmetric] fo
    by auto
qed

lemma new_callsI: "calls s' = calls s @ cs \<Longrightarrow> new_calls s s' = cs"
  by (simp add: new_calls_def)

lemma calls_extend_refl: "calls_extend s s"
  by (simp add: calls_extend_def)

lemma calls_extend_trans: "calls_extend s t \<Longrightarrow> calls_extend t u \<Longrightarrow> calls_extend s u"
  by (auto simp add: calls_extend_def)

lemma calls_extend_eq: "calls t = calls s \<Longrightarrow> calls_extend s t"
  by (simp add: calls_extend_def)

lemma calls_extend_emit: "calls_extend s (emit c s)"
  by (simp add: calls_extend_def emit_def)

lemma calls_extend_basic:
  "calls_extend s (timer_disarm s)"
  "calls_extend s (ntf_set_image s)"
  "calls_extend s (ntf_set_progress_bar s)"
  "calls_extend s (ntf_set_urgency s)"
  "calls_extend s (ntf_set_category s)"
  "calls_extend s (ntf_set_app_name s)"
  "calls_extend s (ntf_set_app_icon s)"
  "calls_extend s (ntf_close s)"
  "calls_extend s (thumbnail_ctx_destroy s)"
  "calls_extend s (queue_screenshot ok f s)"
  "calls_extend s (ntf_uninit s)"
  by (simp_all add: timer_disarm_def ntf_set_image_def ntf_set_progress_bar_def
      ntf_set_urgency_def ntf_set_category_def ntf_set_app_name_def ntf_set_app_icon_def
      ntf_close_def thumbnail_ctx_destroy_def queue_screenshot_def ntf_uninit_def Let_def
      emit_def calls_extend_def)

lemma ce_step:
  "calls_extend s t \<Longrightarrow> calls_extend s (emit c t)"
  "calls_extend s t \<Longrightarrow> calls_extend s (timer_disarm t)"
  "calls_extend s t \<Longrightarrow> calls_extend s (ntf_set_image t)"
  "calls_extend s t \<Longrightarrow> calls_extend s (ntf_set_progress_bar t)"
  "calls_extend s t \<Longrightarrow> calls_extend s (ntf_set_urgency t)"
  "calls_extend s t \<Longrightarrow> calls_extend s (ntf_set_category t)"
  "calls_extend s t \<Longrightarrow> calls_extend s (ntf_set_app_name t)"
  "calls_extend s t \<Longrightarrow> calls_extend s (ntf_set_app_icon t)"
  "calls_extend s t \<Longrightarrow> calls_extend s (ntf_close t)"
  "calls_extend s t \<Longrightarrow> calls_extend s (thumbnail_ctx_destroy t)"
  "calls_extend s t \<Longrightarrow> calls_extend s (queue_screenshot ok f t)"
  "calls_extend s t \<Longrightarrow> calls_extend s (ntf_uninit t)"
  by (erule calls_extend_trans, rule calls_extend_emit calls_extend_basic)+

lemma ce_upd:
  "calls_extend s t \<Longrightarrow> calls_extend s (t\<lparr>notify_initted := v1\<rparr>)"
  "calls_extend s t \<Longrightarrow> calls_extend s (t\<lparr>server_body_markup := v2\<rparr>)"
  "calls_extend s t \<Longrightarrow> calls_extend s (t\<lparr>ntf := v3\<rparr>)"
  "calls_extend s t \<Longrightarrow> calls_extend s (t\<lparr>rewrite_summary := v4\<rparr>)"
  "calls_extend s t \<Longrightarrow> calls_extend s (t\<lparr>rewrite_body := v5\<rparr>)"
  "calls_extend s t \<Longrightarrow> calls_extend s (t\<lparr>timer_armed := v6\<rparr>)"
  "calls_extend s t \<Longrightarrow> calls_extend s (t\<lparr>done_actions := v7\<rparr>)"
  by (simp_all add: calls_extend_def)

lemma calls_extend_ntf_init: "calls_extend s (ntf_init e s)"
  unfolding ntf_init_def ntf_update_server_caps_def Let_def
  by (simp split: option.split) (intro conjI impI allI ce_step ce_upd calls_extend_refl)

lemma calls_extend_fold_reobserve: "calls_extend s (fold (reobserve s0) ps s)"
proof (induction ps arbitrary: s)
  case Nil
  show ?case by (simp add: calls_extend_refl)
next
  case (Cons p ps)
  have "calls_extend s (reobserve s0 p s)"
    by (simp add: reobserve_def calls_extend_def emit_def)
  with Cons show ?case
    by (auto intro: calls_extend_trans)
qed

lemma ce_step2:
  "calls_extend s t \<Longrightarrow> calls_extend s (ntf_init e t)"
  "calls_extend s t \<Longrightarrow> calls_extend s (fold (reobserve s0) ps t)"
  by (erule calls_extend_trans, rule calls_extend_ntf_init calls_extend_fold_reobserve)+

lemma calls_extend_ntf_reinit: "calls_extend s (ntf_reinit e s)"
  unfolding ntf_reinit_def Let_def
  by (simp, intro conjI impI ce_step ce_step2 calls_extend_refl)

lemma calls_extend_ntf_upd: "calls_extend s (ntf_upd e s)"
proof -
  have r: "calls_extend s t \<Longrightarrow> calls_extend s (ntf_reinit e t)" for t
    by (erule calls_extend_trans, rule calls_extend_ntf_reinit)
  show ?thesis
    unfolding ntf_upd_def Let_def
    by (simp, intro conjI impI ce_step ce_upd r calls_extend_refl)
qed

lemma timer_armed_frame:
  "timer_armed (emit c s) = timer_armed s"
  "timer_armed (ntf_set_image s) = timer_armed s"
  "timer_armed (ntf_set_progress_bar s) = timer_armed s"
  "timer_armed (ntf_set_urgency s) = timer_armed s"
  "timer_armed (ntf_set_category s) = timer_armed s"
  "timer_armed (ntf_set_app_name s) = timer_armed s"
  "timer_armed (ntf_set_app_icon s) = timer_armed s"
  "timer_armed (ntf_close s) = timer_armed s"
  "timer_armed (ntf_uninit s) = timer_armed s"
  by (simp_all add: ntf_set_image_def ntf_set_progress_bar_def
      ntf_set_urgency_def ntf_set_category_def ntf_set_app_name_def ntf_set_app_icon_def
      ntf_close_def ntf_uninit_def Let_def emit_def)

lemma timer_armed_ntf_init: "timer_armed (ntf_init e s) = timer_armed s"
  by (simp add: ntf_init_def ntf_update_server_caps_def Let_def timer_armed_frame
      split: option.split)

lemma timer_armed_fold_reobserve: "timer_armed (fold (reobserve s0) ps s) = timer_armed s"
  by (induction ps arbitrary: s) (simp_all add: reobserve_def emit_def)

lemma timer_armed_ntf_reinit: "timer_armed (ntf_reinit e s) = timer_armed s"
  by (simp add: ntf_reinit_def Let_def timer_armed_fold_reobserve timer_armed_ntf_init
      timer_armed_frame)

lemma timer_armed_ntf_upd: "timer_armed (ntf_upd e s) = timer_armed s"
  by (simp add: ntf_upd_def Let_def timer_armed_ntf_reinit timer_armed_frame)

lemma ntf_rst_effect:
  "timer_armed (ntf_rst e s) \<and>
   (\<exists>cs. calls (ntf_rst e s) =
      calls s @ Timerfd_Settime 0 # Timerfd_Settime (u_int64 (opts s O_EXPIRE_TIMEOUT)) # cs)"
proof -
  define s2 where "s2 = (emit (Timerfd_Settime (u_int64 (opts (timer_disarm s) O_EXPIRE_TIMEOUT)))
     (timer_disarm s))\<lparr>timer_armed := True\<rparr>"
  define s3 where "s3 = (if \<not> timer_armed s then queue_screenshot (rst_async_ok e) False s2 else s2)"
  have c2: "calls s2 = calls s @ [Timerfd_Settime 0, Timerfd_Settime (u_int64 (opts s O_EXPIRE_TIMEOUT))]"
    by (simp add: s2_def timer_disarm_def emit_def)
  have a2: "timer_armed s2"
    by (simp add: s2_def)
  have "calls_extend s2 s3"
    by (simp add: s3_def calls_extend_basic calls_extend_refl)
  moreover have "calls_extend s3 (ntf_upd (ntf_outcomes e) s3)"
    by (rule calls_extend_ntf_upd)
  ultimately have "calls_extend s2 (ntf_upd (ntf_outcomes e) s3)"
    by (rule calls_extend_trans)
  then obtain cs where "calls (ntf_upd (ntf_outcomes e) s3) = calls s2 @ cs"
    by (auto simp add: calls_extend_def)
  moreover have "timer_armed (ntf_upd (ntf_outcomes e) s3)"
    by (simp add: timer_armed_ntf_upd s3_def pre_frame a2)
  moreover have "ntf_rst e s = ntf_upd (ntf_outcomes e) s3"
    by (simp add: ntf_rst_def Let_def s3_def s2_def)
  ultimately show ?thesis
    by (simp add: c2)
qed

lemma thumbnail_ctx_destroy_calls:
  "\<exists>cs. calls (thumbnail_ctx_destroy s) = calls s @ cs \<and> set cs \<subseteq> destroy_calls"
  by (auto simp add: thumbnail_ctx_destroy_def ntf_set_image_def emit_def Let_def
      thumbnail_ctx_zero_def destroy_calls_def)

lemma check_image_calls:
  "\<exists>cs. calls (ntf_check_image s) = calls s @ cs \<and> set cs \<subseteq> destroy_calls"
  using thumbnail_ctx_destroy_calls [of "s\<lparr>ntf_image_enabled := False\<rparr>"]
  by (auto simp add: ntf_check_image_def Let_def)

lemma queue_screenshot_calls:
  "\<exists>cs. calls (queue_screenshot ok f s) = calls s @ cs \<and> set cs \<subseteq> range Mpv_Command_Async"
  by (auto simp add: queue_screenshot_def emit_def Let_def)

lemma done_check_image_calls:
  "\<exists>cs. calls (done_check_image s) = calls s @ cs \<and> set cs \<subseteq> destroy_calls"
  using check_image_calls [of s] by (simp add: done_check_image_def)

lemma done_queue_shot_calls:
  "\<exists>cs. calls (done_queue_shot e s) = calls s @ cs \<and> set cs \<subseteq> range Mpv_Command_Async"
  using queue_screenshot_calls [of "queue_async_ok e" True s]
    queue_screenshot_calls [of "queue_async_ok e" False s]
  by (simp add: done_queue_shot_def)

lemma done_prelude_calls:
  "\<exists>cs. calls (done_queue_shot e (done_check_image s)) = calls s @ cs \<and>
        (\<forall>c \<in> set cs. is_prelude_call c)"
proof -
  obtain cs1 where 1: "calls (done_check_image s) = calls s @ cs1"
      "set cs1 \<subseteq> destroy_calls"
    using done_check_image_calls [of s] by blast
  obtain cs2 where 2: "calls (done_queue_shot e (done_check_image s)) = calls (done_check_image s) @ cs2"
      "set cs2 \<subseteq> range Mpv_Command_Async"
    using done_queue_shot_calls [of e "done_check_image s"] by blast
  from 1 2 show ?thesis
    by (auto simp add: is_prelude_call_def destroy_calls_def)
qed

lemma done_prelude_frame:
  "force_open (done_queue_shot e (done_check_image s)) = force_open s"
  "ntf (done_queue_shot e (done_check_image s)) = ntf s"
  "timer_armed (done_queue_shot e (done_check_image s)) = timer_armed s"
  "opts (done_queue_shot e (done_check_image s)) = opts s"
  "eligible (done_queue_shot e (done_check_image s)) = eligible s"
  "player_considered_focused (done_queue_shot e (done_check_image s)) = player_considered_focused s"
  by (simp_all add: done_queue_shot_def done_check_image_def pre_frame pre_eligible)

lemma done_prelude_bits:
  "n \<noteq> 1 \<Longrightarrow> bit (done_actions (done_queue_shot e (done_check_image s))) n = bit (done_actions s) n"
  by (simp add: done_queue_shot_def done_check_image_def queue_screenshot_def emit_def Let_def
      ntf_check_image_def thumbnail_ctx_destroy_def ntf_set_image_def flag_simps)

lemma done_notify_eligible:
  "done_notify e s =
     (if c_true (done_actions s AND A_NTF_CLOSE) \<and> \<not> force_open s
        then ntf_close (timer_disarm s)
      else if eligible s
        then (if c_true (done_actions s AND A_NTF_RST) then ntf_rst e s
              else if c_true (done_actions s AND A_NTF_UPD) \<and>
                      (timer_armed s \<or> force_open s)
                then ntf_upd (ntf_outcomes e) s
              else s)
      else s)"
  by (simp add: done_notify_def eligible_def)

lemma done_fn_or:
  assumes "\<And>n. n \<noteq> 0 \<Longrightarrow> n \<noteq> 1 \<Longrightarrow> \<not> bit f n"
    and "(bit (done_actions s) 0) \<or> (bit (done_actions s) 2 \<and> \<not> force_open s)"
  shows "done_fn e (s\<lparr>done_actions := done_actions s OR f\<rparr>) = done_fn e s"
proof -
  have "done_fn e (s\<lparr>done_actions := done_actions s OR f\<rparr>) =
        done_fn e (s\<lparr>done_actions := done_actions s\<rparr>)"
    using assms by (intro done_fn_cong) (auto simp add: bit_or_iff)
  then show ?thesis by simp
qed

text \<open>
  Claim C1. When \<^verbatim>\<open>done()\<close> runs with \<^verbatim>\<open>A_NTF_CLOSE\<close> accumulated and \<^verbatim>\<open>force_open\<close> false,
  it disarms the timer and closes the notification: after the calls of the image check and
  the screenshot request, none of which is a show or an update, the timer is set to 0 and
  the notification is closed (if there is one), and nothing else is called. Adding
  \<^verbatim>\<open>A_NTF_RST\<close>, \<^verbatim>\<open>A_NTF_UPD\<close> or both to the accumulated actions changes nothing of what
  \<^verbatim>\<open>done()\<close> does. When \<^verbatim>\<open>A_NTF_RST\<close> is accumulated, adding \<^verbatim>\<open>A_NTF_UPD\<close> changes nothing
  either; and if the close does not win and the notification may be shown, the reset is what
  is carried out: the timer is disarmed and armed again with the expire timeout. This holds
  for every state, so for every accumulated set of actions.
\<close>

theorem done_close_beats_reset_beats_update:
  "(c_true (done_actions s AND A_NTF_CLOSE) \<and> \<not> force_open s \<longrightarrow>
      \<not> timer_armed (done_fn e s) \<and>
      (\<exists>pre. new_calls s (done_fn e s) =
          pre @ Timerfd_Settime 0 # (if ntf s then [Notify_Notification_Close] else []) \<and>
          Notify_Notification_Show \<notin> set pre \<and> Notify_Notification_Update \<notin> set pre) \<and>
      done_fn e (s\<lparr>done_actions := done_actions s OR A_NTF_RST\<rparr>) = done_fn e s \<and>
      done_fn e (s\<lparr>done_actions := done_actions s OR A_NTF_UPD\<rparr>) = done_fn e s \<and>
      done_fn e (s\<lparr>done_actions := done_actions s OR (A_NTF_RST OR A_NTF_UPD)\<rparr>) = done_fn e s) \<and>
   (c_true (done_actions s AND A_NTF_RST) \<longrightarrow>
      done_fn e (s\<lparr>done_actions := done_actions s OR A_NTF_UPD\<rparr>) = done_fn e s \<and>
      (\<not> (c_true (done_actions s AND A_NTF_CLOSE) \<and> \<not> force_open s) \<and> eligible s \<longrightarrow>
         timer_armed (done_fn e s) \<and>
         (\<exists>pre post. new_calls s (done_fn e s) =
            pre @ Timerfd_Settime 0 # Timerfd_Settime (u_int64 (opts s O_EXPIRE_TIMEOUT)) # post)))"
proof (intro conjI impI)
  define s2 where "s2 = done_queue_shot e (done_check_image s)"
  obtain pre where pre: "calls s2 = calls s @ pre" "\<forall>c \<in> set pre. is_prelude_call c"
    using done_prelude_calls [of e s] by (auto simp add: s2_def)
  note fr = done_prelude_frame [of e s, folded s2_def]
  have bits: "bit (done_actions s2) 2 = bit (done_actions s) 2"
    "bit (done_actions s2) 0 = bit (done_actions s) 0"
    by (simp_all add: s2_def done_prelude_bits)
  have d: "done_fn e s = finished (done_notify e s2)"
    by (simp add: done_fn_def done_main_def s2_def)
  {
    assume c: "c_true (done_actions s AND A_NTF_CLOSE) \<and> \<not> force_open s"
    then have d2: "done_fn e s = finished (ntf_close (timer_disarm s2))"
      by (simp add: d done_notify_def flag_bits bits fr)
    show "\<not> timer_armed (done_fn e s)"
      by (simp add: d2 finished_def ntf_close_def timer_disarm_def emit_def)
    have "calls (done_fn e s) =
        calls s @ pre @ Timerfd_Settime 0 # (if ntf s then [Notify_Notification_Close] else [])"
      by (simp add: d2 finished_def ntf_close_def timer_disarm_def emit_def pre fr)
    then have "new_calls s (done_fn e s) =
        pre @ Timerfd_Settime 0 # (if ntf s then [Notify_Notification_Close] else [])"
      by (rule new_callsI)
    moreover have "Notify_Notification_Show \<notin> set pre \<and> Notify_Notification_Update \<notin> set pre"
      using pre(2) by (auto simp add: is_prelude_call_def destroy_calls_def)
    ultimately show "\<exists>pre. new_calls s (done_fn e s) =
          pre @ Timerfd_Settime 0 # (if ntf s then [Notify_Notification_Close] else []) \<and>
          Notify_Notification_Show \<notin> set pre \<and> Notify_Notification_Update \<notin> set pre"
      by blast
    from c show "done_fn e (s\<lparr>done_actions := done_actions s OR A_NTF_RST\<rparr>) = done_fn e s"
      by (intro done_fn_or) (simp_all add: flag_simps)
    from c show "done_fn e (s\<lparr>done_actions := done_actions s OR A_NTF_UPD\<rparr>) = done_fn e s"
      by (intro done_fn_or) (simp_all add: flag_simps)
    from c show "done_fn e (s\<lparr>done_actions := done_actions s OR (A_NTF_RST OR A_NTF_UPD)\<rparr>) = done_fn e s"
      by (intro done_fn_or) (simp_all add: flag_simps)
  }
  {
    assume r: "c_true (done_actions s AND A_NTF_RST)"
    then show "done_fn e (s\<lparr>done_actions := done_actions s OR A_NTF_UPD\<rparr>) = done_fn e s"
      by (intro done_fn_or) (simp_all add: flag_simps)
    assume n: "\<not> (c_true (done_actions s AND A_NTF_CLOSE) \<and> \<not> force_open s) \<and> eligible s"
    with r have d3: "done_fn e s = finished (ntf_rst e s2)"
      by (auto simp add: d done_notify_eligible flag_bits bits fr)
    obtain post where post: "timer_armed (ntf_rst e s2)"
      "calls (ntf_rst e s2) =
         calls s2 @ Timerfd_Settime 0 # Timerfd_Settime (u_int64 (opts s2 O_EXPIRE_TIMEOUT)) # post"
      using ntf_rst_effect [of e s2] by blast
    show "timer_armed (done_fn e s)"
      by (simp add: d3 finished_def post)
    have "calls (done_fn e s) =
        calls s @ pre @ Timerfd_Settime 0 # Timerfd_Settime (u_int64 (opts s O_EXPIRE_TIMEOUT)) # post"
      by (simp add: d3 finished_def post pre fr)
    then have "new_calls s (done_fn e s) =
        pre @ Timerfd_Settime 0 # Timerfd_Settime (u_int64 (opts s O_EXPIRE_TIMEOUT)) # post"
      by (rule new_callsI)
    then show "\<exists>pre post. new_calls s (done_fn e s) =
            pre @ Timerfd_Settime 0 # Timerfd_Settime (u_int64 (opts s O_EXPIRE_TIMEOUT)) # post"
      by blast
  }
qed

text \<open>
  Claim C2. If the player is considered focused (the property \<^verbatim>\<open>focused\<close> is true, or the
  mouse hovers, or the option \<^verbatim>\<open>focus_manual\<close> is set) and \<^verbatim>\<open>force_open\<close> is false, then
  \<^verbatim>\<open>done()\<close> calls neither \<^verbatim>\<open>notify_notification_show\<close> nor
  \<^verbatim>\<open>notify_notification_update\<close>, whatever the accumulated actions and the stored
  properties are.
\<close>

theorem done_focused_no_show_or_update:
  assumes "op_true s P_FOCUSED \<or> mouse_hovered s \<or> opt_true s O_FOCUS_MANUAL"
    and "\<not> force_open s"
  shows "Notify_Notification_Show \<notin> set (new_calls s (done_fn e s)) \<and>
         Notify_Notification_Update \<notin> set (new_calls s (done_fn e s))"
proof -
  define s2 where "s2 = done_queue_shot e (done_check_image s)"
  obtain pre where pre: "calls s2 = calls s @ pre" "\<forall>c \<in> set pre. is_prelude_call c"
    using done_prelude_calls [of e s] by (auto simp add: s2_def)
  note fr = done_prelude_frame [of e s, folded s2_def]
  have f: "player_considered_focused s"
    using assms(1) by (simp add: player_considered_focused_def)
  have "done_fn e s = finished (if c_true (done_actions s2 AND A_NTF_CLOSE)
      then ntf_close (timer_disarm s2) else s2)"
    using f assms(2) by (simp add: done_fn_def done_main_def s2_def [symmetric] done_notify_def fr)
  then have "\<exists>cs. calls (done_fn e s) = calls s @ pre @ cs \<and>
      set cs \<subseteq> {Timerfd_Settime 0, Notify_Notification_Close}"
    by (auto simp add: finished_def ntf_close_def timer_disarm_def emit_def pre)
  then obtain cs where cs: "calls (done_fn e s) = calls s @ (pre @ cs)"
      "set cs \<subseteq> {Timerfd_Settime 0, Notify_Notification_Close}"
    by auto
  have "new_calls s (done_fn e s) = pre @ cs"
    using cs(1) by (rule new_callsI)
  with pre(2) cs(2) show ?thesis
    by (auto simp add: is_prelude_call_def destroy_calls_def)
qed

lemma ntf_check_image_cases:
  "(ntf_image_enabled s \<and> \<not> ntf_image_enabled (ntf_check_image s) \<longrightarrow>
      thumbnail_ctx (ntf_check_image s) = thumbnail_ctx_zero \<and>
      done_actions (ntf_check_image s) = done_actions s OR A_NTF_UPD \<and>
      c_true (done_actions (ntf_check_image s) AND A_NTF_UPD)) \<and>
   (\<not> (ntf_image_enabled s \<and> \<not> ntf_image_enabled (ntf_check_image s)) \<longrightarrow>
      thumbnail_ctx (ntf_check_image s) = thumbnail_ctx s \<and>
      done_actions (ntf_check_image s) = done_actions s \<and>
      calls (ntf_check_image s) = calls s)"
  by (simp add: ntf_check_image_def thumbnail_ctx_destroy_def ntf_set_image_def emit_def Let_def
      flag_simps)

text \<open>
  Claim C10. When \<^verbatim>\<open>ntf_check_image\<close> turns image support from enabled to disabled, it
  tears the thumbnail context down and adds \<^verbatim>\<open>A_NTF_UPD\<close> to the accumulated actions. In
  every other case (image support keeps its state, or goes from disabled to enabled) the
  thumbnail context and the accumulated actions are unchanged, and no external call is made.
\<close>

theorem ntf_check_image_transitions:
  "(ntf_image_enabled s \<and> \<not> ntf_image_enabled (ntf_check_image s) \<longrightarrow>
      thumbnail_ctx (ntf_check_image s) = thumbnail_ctx_zero \<and>
      done_actions (ntf_check_image s) = done_actions s OR A_NTF_UPD \<and>
      c_true (done_actions (ntf_check_image s) AND A_NTF_UPD)) \<and>
   (\<not> (ntf_image_enabled s \<and> \<not> ntf_image_enabled (ntf_check_image s)) \<longrightarrow>
      thumbnail_ctx (ntf_check_image s) = thumbnail_ctx s \<and>
      done_actions (ntf_check_image s) = done_actions s \<and>
      calls (ntf_check_image s) = calls s)"
  by (rule ntf_check_image_cases)

text \<open>
  Claim C4, as amended. Handling the client message \<^verbatim>\<open>close\<close> adds \<^verbatim>\<open>A_NTF_CLOSE\<close> to the
  accumulated actions and sets \<^verbatim>\<open>force_open\<close> to false; it changes nothing else.
\<close>

theorem close_message_clears_force_open:
  "on_client_message oe (''close'' # rest) s =
     Inr (s\<lparr>done_actions := done_actions s OR A_NTF_CLOSE, force_open := False\<rparr>)"
  by (simp add: on_client_message_def add_actions_def)

theorem close_message_clears_force_open_witness:
  "on_client_message same_opts_env [''close''] forced_open_state =
     Inr (forced_open_state\<lparr>done_actions := done_actions forced_open_state OR A_NTF_CLOSE,
            force_open := False\<rparr>)"
  using close_message_clears_force_open [of same_opts_env "[]" forced_open_state]
  by simp

text \<open>
  With \<^verbatim>\<open>force_open\<close> true, the client message \<^verbatim>\<open>close\<close> leaves it false.
\<close>

theorem close_message_writes_force_open:
  "force_open forced_open_state \<and>
   on_client_message same_opts_env [''close''] forced_open_state =
     Inr (initial_state\<lparr>done_actions := A_NTF_CLOSE, force_open := False\<rparr>)"
  by (simp add: on_client_message_def add_actions_def forced_open_state_def initial_state_def)

text \<open>
  Claim C9. A change of the property \<^verbatim>\<open>mouse-pos\<close> stores the new hover state, and adds
  \<^verbatim>\<open>A_NTF_CLOSE\<close> to the accumulated actions exactly when the hover state goes from false to
  true; otherwise the accumulated actions are unchanged.
\<close>

theorem mouse_pos_close_on_hover_start:
  "\<exists>s'. on_property_change oe P_MOUSE_POS ev s = Inr s' \<and>
        mouse_hovered s' = mouse_is_hovered ev \<and>
        done_actions s' =
          (if \<not> mouse_hovered s \<and> mouse_is_hovered ev
           then done_actions s OR A_NTF_CLOSE else done_actions s)"
  by (simp add: on_property_change_def save_prop_def prop_action_if_true_def
      prop_part_of_summary_def prop_part_of_body_def add_actions_def on_mouse_pos_def Let_def)

lemmas example_defs = initial_state_def all_ok_env_def idle_props_def close_reset_state_def
  idle_reset_state_def hovered_state_def enabled_idle_state_def hover_event_def
  same_opts_env_def forced_open_state_def

lemmas flag_defs = A_NTF_RST_def A_NTF_UPD_def A_NTF_CLOSE_def A_QUEUE_SHOT_def
  A_FORCED_QUEUE_SHOT_def A_NTF_CHECK_IMAGE_def

theorem done_close_beats_reset_beats_update_witness:
  "c_true (done_actions close_reset_state AND A_NTF_CLOSE) \<and> \<not> force_open close_reset_state \<and>
   \<not> timer_armed (done_fn all_ok_env close_reset_state) \<and>
   done_fn all_ok_env (close_reset_state\<lparr>done_actions :=
       done_actions close_reset_state OR A_NTF_RST\<rparr>) = done_fn all_ok_env close_reset_state \<and>
   c_true (done_actions idle_reset_state AND A_NTF_RST) \<and>
   \<not> (c_true (done_actions idle_reset_state AND A_NTF_CLOSE) \<and> \<not> force_open idle_reset_state) \<and>
   eligible idle_reset_state \<and>
   timer_armed (done_fn all_ok_env idle_reset_state)"
proof -
  have a: "c_true (done_actions close_reset_state AND A_NTF_CLOSE) \<and> \<not> force_open close_reset_state"
    by (simp add: example_defs flag_defs c_true_def)
  have b: "c_true (done_actions idle_reset_state AND A_NTF_RST)"
    "\<not> (c_true (done_actions idle_reset_state AND A_NTF_CLOSE) \<and> \<not> force_open idle_reset_state) \<and>
     eligible idle_reset_state"
    by (simp_all add: example_defs flag_defs c_true_def eligible_def focus_defs)
  from a b done_close_beats_reset_beats_update [of close_reset_state all_ok_env]
    done_close_beats_reset_beats_update [of idle_reset_state all_ok_env]
  show ?thesis
    by blast
qed

theorem done_focused_no_show_or_update_witness:
  "mouse_hovered hovered_state \<and> \<not> force_open hovered_state \<and>
   Notify_Notification_Show \<notin> set (new_calls hovered_state (done_fn all_ok_env hovered_state)) \<and>
   Notify_Notification_Update \<notin> set (new_calls hovered_state (done_fn all_ok_env hovered_state))"
  using done_focused_no_show_or_update [of hovered_state all_ok_env]
  by (simp add: example_defs)

theorem ntf_check_image_transitions_witness:
  "ntf_image_enabled enabled_idle_state \<and>
   \<not> ntf_image_enabled (ntf_check_image enabled_idle_state) \<and>
   thumbnail_ctx (ntf_check_image enabled_idle_state) = thumbnail_ctx_zero \<and>
   c_true (done_actions (ntf_check_image enabled_idle_state) AND A_NTF_UPD) \<and>
   \<not> ntf_image_enabled initial_state \<and>
   thumbnail_ctx (ntf_check_image initial_state) = thumbnail_ctx initial_state \<and>
   done_actions (ntf_check_image initial_state) = done_actions initial_state"
proof -
  have a: "ntf_image_enabled enabled_idle_state \<and>
      \<not> ntf_image_enabled (ntf_check_image enabled_idle_state)"
    by (simp add: example_defs ntf_check_image_def focus_defs Let_def thumbnail_ctx_destroy_def
        ntf_set_image_def emit_def)
  have b: "\<not> ntf_image_enabled initial_state"
    by (simp add: example_defs)
  from a b ntf_check_image_transitions [of enabled_idle_state]
    ntf_check_image_transitions [of initial_state]
  show ?thesis
    by blast
qed

theorem mouse_pos_close_on_hover_start_witness:
  "\<exists>s'. on_property_change same_opts_env P_MOUSE_POS hover_event initial_state = Inr s' \<and>
        mouse_hovered s' \<and> done_actions s' = A_NTF_CLOSE"
  using mouse_pos_close_on_hover_start [of same_opts_env hover_event initial_state]
  by (simp add: example_defs mouse_is_hovered_def)

lemma bind_result_simps [simp]:
  "bind_result (Inl x) f = Inl x"
  "bind_result (Inr v) f = f v"
  by (simp_all add: bind_result_def)

lemma bind_result_eq_Inr:
  "bind_result r f = Inr y \<longleftrightarrow> (\<exists>v. r = Inr v \<and> f v = Inr y)"
  by (cases r) simp_all

lemma int_mul_in_range:
  "INT_MIN \<le> a * b \<Longrightarrow> a * b \<le> INT_MAX \<Longrightarrow> int_mul a b = a * b"
  by (simp add: int_mul_def INT_MIN_def INT_MAX_def)

lemma int_of_double_eq_Inr: "int_of_double d = Inr t \<Longrightarrow> t = c_trunc d"
  by (simp add: int_of_double_def Let_def split: if_splits)

lemma thumbnail_ctx_destroy_ctx: "thumbnail_ctx (thumbnail_ctx_destroy s) = thumbnail_ctx_zero"
  by (simp add: thumbnail_ctx_destroy_def ntf_set_image_def emit_def)

lemma thumbnail_ctx_destroy_opts: "opts (thumbnail_ctx_destroy s) = opts s"
  by (simp add: thumbnail_ctx_destroy_def ntf_set_image_def emit_def)

lemma ctx_dimensions_shape:
  assumes "ctx_dimensions s w h stride = Inr c"
  shows "if opt_true s O_DISABLE_SCALING
     then dst_w c = src_w c \<and> dst_stride c = src_stride c \<and> dst_h c = src_h c \<and>
          src_w c = c_trunc w \<and> src_stride c = c_trunc stride \<and> src_h c = c_trunc h
     else \<exists>t rw rh pw ph.
          double_of_int64 (u_int64 (opts s O_THUMBNAIL_SIZE)) = Inr t \<and>
          double_div t w = Inr rw \<and> double_div t h = Inr rh \<and>
          double_mul w (min rw rh) = Inr pw \<and> double_mul h (min rw rh) = Inr ph \<and>
          dst_w c = max 1 (c_trunc pw) \<and> dst_h c = max 1 (c_trunc ph) \<and>
          dst_stride c = int_mul (dst_w c) 4 \<and> 1 \<le> dst_w c \<and> 1 \<le> dst_h c"
proof (cases "opt_true s O_DISABLE_SCALING")
  case True
  with assms show ?thesis
    by (auto simp add: ctx_dimensions_def bind_result_eq_Inr Let_def
        dest!: int_of_double_eq_Inr)
next
  case False
  with assms show ?thesis
    by (auto simp add: ctx_dimensions_def bind_result_eq_Inr Let_def
        dest!: int_of_double_eq_Inr)
qed

lemma ctx_dimensions_frame:
  assumes "ctx_dimensions s w h stride = Inr c"
  shows "thumbnail c = thumbnail (thumbnail_ctx s) \<and> pixbuf c = pixbuf (thumbnail_ctx s) \<and>
         sws c = sws (thumbnail_ctx s)"
  using assms
  by (auto simp add: ctx_dimensions_def bind_result_eq_Inr Let_def split: if_splits)

lemma thumbnail_ctx_maybe_new_outcome:
  assumes "\<not> ctx_reusable s w h stride"
    and "thumbnail_ctx_maybe_new e w h stride s = Inr s'"
  shows "\<exists>c. ctx_dimensions (thumbnail_ctx_destroy s) w h stride = Inr c \<and>
     thumbnail_ctx s' =
       (if build_fails e s c then thumbnail_ctx_zero
        else c\<lparr>thumbnail := Some (int_mul (dst_stride c) (dst_h c)), pixbuf := True,
               sws := \<not> opt_true s O_DISABLE_SCALING\<rparr>)"
proof -
  define s1 where "s1 = thumbnail_ctx_destroy s"
  from assms obtain c where c: "ctx_dimensions s1 w h stride = Inr c"
    by (auto simp add: thumbnail_ctx_maybe_new_def bind_result_eq_Inr s1_def Let_def)
  have o: "opt_true (s1\<lparr>thumbnail_ctx := c\<rparr>) k = opt_true s k" for k
    by (simp add: opt_true_def s1_def thumbnail_ctx_destroy_opts)
  have f: "sws c = False" "thumbnail c = None" "pixbuf c = False"
    using ctx_dimensions_frame [OF c]
    by (simp_all add: s1_def thumbnail_ctx_destroy_ctx thumbnail_ctx_zero_def)
  have z: "thumbnail_ctx (thumbnail_ctx_destroy x) = thumbnail_ctx_zero" for x
    by (rule thumbnail_ctx_destroy_ctx)
  from assms(1) c have "result_ctx (thumbnail_ctx_maybe_new e w h stride s) =
       Some (if build_fails e s c then thumbnail_ctx_zero
        else c\<lparr>thumbnail := Some (int_mul (dst_stride c) (dst_h c)), pixbuf := True,
               sws := \<not> opt_true s O_DISABLE_SCALING\<rparr>)"
    by (auto simp add: result_ctx_def thumbnail_ctx_maybe_new_def s1_def [symmetric] Let_def o z
        build_fails_def emit_def ntf_set_image_def f intro!: thumbnail_ctx_t.equality)
  with assms(2) have "thumbnail_ctx s' =
       (if build_fails e s c then thumbnail_ctx_zero
        else c\<lparr>thumbnail := Some (int_mul (dst_stride c) (dst_h c)), pixbuf := True,
               sws := \<not> opt_true s O_DISABLE_SCALING\<rparr>)"
    by (simp add: result_ctx_def)
  with c show ?thesis
    by (auto simp add: s1_def)
qed

lemma thumbnail_ctx_process_no_buffer:
  "thumbnail (thumbnail_ctx s) = None \<Longrightarrow> thumbnail_ctx_process s = s"
  by (simp add: thumbnail_ctx_process_def)

text \<open>
  When a new context is needed and the \<^verbatim>\<open>int\<close> product of destination stride and height
  exceeds \<^verbatim>\<open>MAX_IMAGE_SIZE\<close>, or the scaler, the buffer or the pixbuf cannot be
  constructed, the context is left destroyed: all its fields are zero, and
  \<^verbatim>\<open>thumbnail_ctx_process\<close> does nothing.
\<close>

lemma thumbnail_ctx_torn_down_on_failure:
  assumes "\<not> ctx_reusable s w h stride"
    and "thumbnail_ctx_maybe_new e w h stride s = Inr s'"
    and "ctx_dimensions (thumbnail_ctx_destroy s) w h stride = Inr c"
    and "MAX_IMAGE_SIZE < int_mul (dst_stride c) (dst_h c) \<or>
         (\<not> opt_true s O_DISABLE_SCALING \<and> \<not> sws_ok e) \<or> \<not> malloc_ok e \<or> \<not> pixbuf_ok e"
  shows "thumbnail_ctx s' = thumbnail_ctx_zero \<and> thumbnail (thumbnail_ctx s') = None \<and>
         \<not> pixbuf (thumbnail_ctx s') \<and> \<not> sws (thumbnail_ctx s') \<and>
         thumbnail_ctx_process s' = s'"
proof -
  from thumbnail_ctx_maybe_new_outcome [OF assms(1,2)] assms(3,4)
  have "thumbnail_ctx s' = thumbnail_ctx_zero"
    by (auto simp add: build_fails_def)
  then show ?thesis
    by (simp add: thumbnail_ctx_zero_def thumbnail_ctx_process_no_buffer)
qed

lemma thumbnail_ctx_torn_down_example:
  "\<not> ctx_reusable noscale_state 8192 8192 32768 \<and>
   ctx_dimensions (thumbnail_ctx_destroy noscale_state) 8192 8192 32768 = Inr big_ctx \<and>
   MAX_IMAGE_SIZE < int_mul (dst_stride big_ctx) (dst_h big_ctx) \<and>
   result_ctx (thumbnail_ctx_maybe_new ok_thumb_env 8192 8192 32768 noscale_state) =
     Some thumbnail_ctx_zero"
proof -
  have a: "\<not> ctx_reusable noscale_state 8192 8192 32768"
    by (simp add: ctx_reusable_def noscale_state_def initial_state_def thumbnail_ctx_zero_def)
  have c: "ctx_dimensions (thumbnail_ctx_destroy noscale_state) 8192 8192 32768 = Inr big_ctx"
    by (simp add: ctx_dimensions_def noscale_state_def initial_state_def opt_true_def
        int_of_double_def c_trunc_def INT_MIN_def INT_MAX_def thumbnail_ctx_destroy_def
        ntf_set_image_def emit_def big_ctx_def Let_def thumbnail_ctx_zero_def)
  have d: "MAX_IMAGE_SIZE < int_mul (dst_stride big_ctx) (dst_h big_ctx)"
    by (simp add: big_ctx_def MAX_IMAGE_SIZE_def int_mul_def)
  have "\<exists>s'. thumbnail_ctx_maybe_new ok_thumb_env 8192 8192 32768 noscale_state = Inr s'"
    using a by (simp add: thumbnail_ctx_maybe_new_def c Let_def)
  then obtain s' where b: "thumbnail_ctx_maybe_new ok_thumb_env 8192 8192 32768 noscale_state = Inr s'"
    by blast
  from thumbnail_ctx_torn_down_on_failure [OF a b c] d
  have "thumbnail_ctx s' = thumbnail_ctx_zero"
    by blast
  with a b c d show ?thesis
    by (simp add: result_ctx_def)
qed

text \<open>
  Claim C7 at \<^verbatim>\<open>thumbnail_size\<close> 32768, scaling enabled, a frame of 1024 by 1024 with stride
  4096, and every construction succeeding. The destination is 32768 by 32768 with a stride
  of 131072, so its byte size 131072 * 32768 = \<^verbatim>\<open>2^32\<close> exceeds \<^verbatim>\<open>MAX_IMAGE_SIZE\<close>; but the
  product is computed in \<^verbatim>\<open>int\<close> and is 0 there, so the size check passes, a buffer of
  \<^verbatim>\<open>malloc(0)\<close> is allocated, and the context is kept with its buffer, pixbuf and scaler
  instead of being torn down.
\<close>

theorem thumbnail_size_check_overflows:
  "result_ctx (thumbnail_ctx_maybe_new ok_thumb_env 1024 1024 4096 size32768_state) =
     Some \<lparr>src_w = 1024, src_stride = 4096, src_h = 1024, dst_w = 32768,
           dst_stride = 131072, dst_h = 32768, thumbnail = Some 0, pixbuf = True,
           sws = True\<rparr> \<and>
   MAX_IMAGE_SIZE < 131072 * 32768 \<and> int_mul 131072 32768 = 0"
  by code_simp

text \<open>
  A source of 1920 by 1080 with \<^verbatim>\<open>thumbnail_size\<close> 65 and scaling enabled: the code computes
  a destination of 65 by 36, since 1080 * (65 / 1920) = 36.5625 is truncated to 36, where
  rounding to the nearest integer gives 37.
\<close>

theorem thumbnail_height_truncated_not_rounded:
  "result_ctx (thumbnail_ctx_maybe_new ok_thumb_env 1920 1080 7680 size65_state) =
     Some \<lparr>src_w = 1920, src_stride = 7680, src_h = 1080, dst_w = 65, dst_stride = 260,
           dst_h = 36, thumbnail = Some 9360, pixbuf = True, sws = True\<rparr> \<and>
   max 1 (round (1080 * min (65 / 1920) (65 / 1080) :: rat)) = (37 :: int)"
  by code_simp

text \<open>
  Claim C3, as amended. When \<^verbatim>\<open>thumbnail_ctx_maybe_new\<close> builds a new context (the stored one
  does not fit the frame, and the construction succeeds) with scaling disabled, the
  destination width, stride and height are those of the source. With scaling enabled, the
  destination is max(1, trunc(w * f)) by max(1, trunc(h * f)), where f = min(t / w, t / h)
  for the configured \<^verbatim>\<open>thumbnail_size\<close> t, the division and the multiplication are those of
  the type \<^verbatim>\<open>double\<close>, and trunc is the conversion from \<^verbatim>\<open>double\<close> to \<^verbatim>\<open>int\<close>, which
  drops the fractional part: the code does not round to the nearest integer. Neither
  dimension is below 1, and the destination stride is the \<^verbatim>\<open>int\<close> product of the
  destination width and 4, which is the width times 4 for every width below \<^verbatim>\<open>2^29\<close>. A
  source of 1920 by 1080 with \<^verbatim>\<open>thumbnail_size\<close> 64 and scaling enabled gives a destination
  of 64 by 36 with a stride of 256 bytes.
\<close>

theorem thumbnail_ctx_dimensions_truncated:
  "(\<not> ctx_reusable s w h stride \<and> thumbnail_ctx_maybe_new e w h stride s = Inr s' \<and>
    thumbnail (thumbnail_ctx s') \<noteq> None \<longrightarrow>
      (if opt_true s O_DISABLE_SCALING
       then dst_w (thumbnail_ctx s') = src_w (thumbnail_ctx s') \<and>
            dst_stride (thumbnail_ctx s') = src_stride (thumbnail_ctx s') \<and>
            dst_h (thumbnail_ctx s') = src_h (thumbnail_ctx s') \<and>
            src_w (thumbnail_ctx s') = c_trunc w \<and>
            src_stride (thumbnail_ctx s') = c_trunc stride \<and>
            src_h (thumbnail_ctx s') = c_trunc h
       else \<exists>t rw rh pw ph.
            double_of_int64 (u_int64 (opts s O_THUMBNAIL_SIZE)) = Inr t \<and>
            double_div t w = Inr rw \<and> double_div t h = Inr rh \<and>
            double_mul w (min rw rh) = Inr pw \<and> double_mul h (min rw rh) = Inr ph \<and>
            dst_w (thumbnail_ctx s') = max 1 (c_trunc pw) \<and>
            dst_h (thumbnail_ctx s') = max 1 (c_trunc ph) \<and>
            dst_stride (thumbnail_ctx s') = int_mul (dst_w (thumbnail_ctx s')) 4 \<and>
            (dst_w (thumbnail_ctx s') < 2 ^ 29 \<longrightarrow>
               dst_stride (thumbnail_ctx s') = dst_w (thumbnail_ctx s') * 4) \<and>
            1 \<le> dst_w (thumbnail_ctx s') \<and> 1 \<le> dst_h (thumbnail_ctx s'))) \<and>
   result_ctx (thumbnail_ctx_maybe_new ok_thumb_env 1920 1080 7680 initial_state) =
     Some \<lparr>src_w = 1920, src_stride = 7680, src_h = 1080, dst_w = 64, dst_stride = 256,
           dst_h = 36, thumbnail = Some 9216, pixbuf = True, sws = True\<rparr>"
proof (intro conjI impI)
  assume a: "\<not> ctx_reusable s w h stride \<and> thumbnail_ctx_maybe_new e w h stride s = Inr s' \<and>
    thumbnail (thumbnail_ctx s') \<noteq> None"
  then obtain c where c: "ctx_dimensions (thumbnail_ctx_destroy s) w h stride = Inr c"
    and s': "thumbnail_ctx s' =
       (if build_fails e s c then thumbnail_ctx_zero
        else c\<lparr>thumbnail := Some (int_mul (dst_stride c) (dst_h c)), pixbuf := True,
               sws := \<not> opt_true s O_DISABLE_SCALING\<rparr>)"
    using thumbnail_ctx_maybe_new_outcome [of s w h stride e s'] by blast
  from a s' have nf: "\<not> build_fails e s c"
    by (auto simp add: thumbnail_ctx_zero_def)
  have o: "opt_true (thumbnail_ctx_destroy s) k = opt_true s k" for k
    by (simp add: opt_true_def thumbnail_ctx_destroy_opts)
  note sh = ctx_dimensions_shape [OF c, unfolded o thumbnail_ctx_destroy_opts]
  from nf s' have t: "thumbnail_ctx s' = c\<lparr>thumbnail := Some (int_mul (dst_stride c) (dst_h c)),
      pixbuf := True, sws := \<not> opt_true s O_DISABLE_SCALING\<rparr>"
    by simp
  have m: "int_mul x 4 = x * 4" if "1 \<le> x" "x < 2 ^ 29" for x
    using that by (intro int_mul_in_range) (simp_all add: INT_MIN_def INT_MAX_def)
  show "if opt_true s O_DISABLE_SCALING
       then dst_w (thumbnail_ctx s') = src_w (thumbnail_ctx s') \<and>
            dst_stride (thumbnail_ctx s') = src_stride (thumbnail_ctx s') \<and>
            dst_h (thumbnail_ctx s') = src_h (thumbnail_ctx s') \<and>
            src_w (thumbnail_ctx s') = c_trunc w \<and>
            src_stride (thumbnail_ctx s') = c_trunc stride \<and>
            src_h (thumbnail_ctx s') = c_trunc h
       else \<exists>t rw rh pw ph.
            double_of_int64 (u_int64 (opts s O_THUMBNAIL_SIZE)) = Inr t \<and>
            double_div t w = Inr rw \<and> double_div t h = Inr rh \<and>
            double_mul w (min rw rh) = Inr pw \<and> double_mul h (min rw rh) = Inr ph \<and>
            dst_w (thumbnail_ctx s') = max 1 (c_trunc pw) \<and>
            dst_h (thumbnail_ctx s') = max 1 (c_trunc ph) \<and>
            dst_stride (thumbnail_ctx s') = int_mul (dst_w (thumbnail_ctx s')) 4 \<and>
            (dst_w (thumbnail_ctx s') < 2 ^ 29 \<longrightarrow>
               dst_stride (thumbnail_ctx s') = dst_w (thumbnail_ctx s') * 4) \<and>
            1 \<le> dst_w (thumbnail_ctx s') \<and> 1 \<le> dst_h (thumbnail_ctx s')"
  proof (cases "opt_true s O_DISABLE_SCALING")
    case True
    with sh show ?thesis
      by (simp add: t)
  next
    case False
    with sh have "\<exists>t rw rh pw ph.
             double_of_int64 (u_int64 (opts s O_THUMBNAIL_SIZE)) = Inr t \<and>
             double_div t w = Inr rw \<and> double_div t h = Inr rh \<and>
             double_mul w (min rw rh) = Inr pw \<and> double_mul h (min rw rh) = Inr ph \<and>
             dst_w c = max 1 (c_trunc pw) \<and> dst_h c = max 1 (c_trunc ph) \<and>
             dst_stride c = int_mul (dst_w c) 4 \<and> 1 \<le> dst_w c \<and> 1 \<le> dst_h c"
      by simp
    then obtain t' rw rh pw ph where
      "double_of_int64 (u_int64 (opts s O_THUMBNAIL_SIZE)) = Inr t'"
      "double_div t' w = Inr rw" "double_div t' h = Inr rh"
      "double_mul w (min rw rh) = Inr pw" "double_mul h (min rw rh) = Inr ph"
      "dst_w c = max 1 (c_trunc pw)" "dst_h c = max 1 (c_trunc ph)"
      "dst_stride c = int_mul (dst_w c) 4" "1 \<le> dst_w c" "1 \<le> dst_h c"
      by blast
    moreover from this have "dst_w c < 2 ^ 29 \<longrightarrow> dst_stride c = dst_w c * 4"
      by (simp add: m)
    ultimately show ?thesis
      using False by (simp add: t)
  qed
next
  show "result_ctx (thumbnail_ctx_maybe_new ok_thumb_env 1920 1080 7680 initial_state) =
     Some \<lparr>src_w = 1920, src_stride = 7680, src_h = 1080, dst_w = 64, dst_stride = 256,
           dst_h = 36, thumbnail = Some 9216, pixbuf = True, sws = True\<rparr>"
    by code_simp
qed

theorem thumbnail_ctx_dimensions_truncated_witness:
  "\<not> ctx_reusable size65_state 1920 1080 7680 \<and>
   (\<exists>s'. thumbnail_ctx_maybe_new ok_thumb_env 1920 1080 7680 size65_state = Inr s' \<and>
      thumbnail (thumbnail_ctx s') \<noteq> None \<and>
      dst_stride (thumbnail_ctx s') = dst_w (thumbnail_ctx s') * 4 \<and>
      1 \<le> dst_w (thumbnail_ctx s') \<and> 1 \<le> dst_h (thumbnail_ctx s'))"
proof -
  have a: "\<not> ctx_reusable size65_state 1920 1080 7680"
    by (simp add: ctx_reusable_def size65_state_def initial_state_def thumbnail_ctx_zero_def)
  have r: "result_ctx (thumbnail_ctx_maybe_new ok_thumb_env 1920 1080 7680 size65_state) =
     Some \<lparr>src_w = 1920, src_stride = 7680, src_h = 1080, dst_w = 65, dst_stride = 260,
           dst_h = 36, thumbnail = Some 9360, pixbuf = True, sws = True\<rparr>"
    by code_simp
  then obtain s' where b: "thumbnail_ctx_maybe_new ok_thumb_env 1920 1080 7680 size65_state = Inr s'"
    and t: "thumbnail_ctx s' = \<lparr>src_w = 1920, src_stride = 7680, src_h = 1080, dst_w = 65,
           dst_stride = 260, dst_h = 36, thumbnail = Some 9360, pixbuf = True, sws = True\<rparr>"
    by (auto simp add: result_ctx_def split: sum.splits)
  have n: "\<not> opt_true size65_state O_DISABLE_SCALING"
    by (simp add: opt_true_def size65_state_def initial_state_def)
  from t have "thumbnail (thumbnail_ctx s') \<noteq> None" "dst_w (thumbnail_ctx s') < 2 ^ 29"
    by simp_all
  with a b n thumbnail_ctx_dimensions_truncated [of size65_state 1920 1080 7680 ok_thumb_env s']
  show ?thesis
    by auto
qed

text \<open>
  Claim C5, as amended. When \<^verbatim>\<open>queue_screenshot\<close> issues a request (image support enabled,
  and the timer armed or the request forced), it forgets an outstanding request:
  \<^verbatim>\<open>screenshot_in_progress\<close> becomes the outcome of the new \<^verbatim>\<open>mpv_command_async\<close> call
  whatever it was before, and exactly that one call is made. But \<^verbatim>\<open>on_done_screenshot\<close>
  never reads \<^verbatim>\<open>screenshot_in_progress\<close>: with image support enabled, a reply is handled in
  the same way whatever the value of the flag, so the reply to an abandoned request is
  processed like any other reply.
\<close>

theorem screenshot_reply_not_gated_by_flag:
  "(ntf_image_enabled s \<and> (timer_armed s \<or> force \<or> force_open s) \<longrightarrow>
      screenshot_in_progress (queue_screenshot ok force s) = ok \<and>
      calls (queue_screenshot ok force s) =
        calls s @ [Mpv_Command_Async (u_string (opts s O_SCREENSHOT_FLAGS))]) \<and>
   (ntf_image_enabled s \<longrightarrow>
      on_done_screenshot te command_node (s\<lparr>screenshot_in_progress := b\<rparr>) =
      on_done_screenshot te command_node s)"
  by (auto simp add: queue_screenshot_def emit_def Let_def on_done_screenshot_def)

theorem screenshot_reply_not_gated_by_flag_witness:
  "ntf_image_enabled outstanding_state \<and> timer_armed outstanding_state \<and>
   screenshot_in_progress (queue_screenshot True False outstanding_state) \<and>
   on_done_screenshot ok_thumb_env frame_reply
     (outstanding_state\<lparr>screenshot_in_progress := False\<rparr>) =
   on_done_screenshot ok_thumb_env frame_reply outstanding_state"
proof -
  have a: "ntf_image_enabled outstanding_state \<and> timer_armed outstanding_state"
    by (simp add: outstanding_state_def initial_state_def)
  with screenshot_reply_not_gated_by_flag [of outstanding_state False True ok_thumb_env
      frame_reply False]
  show ?thesis
    by simp
qed

text \<open>
  A request is outstanding and \<^verbatim>\<open>queue_screenshot\<close> issues a new one; then the reply to the
  abandoned request arrives, a frame of 1 by 1. The thumbnail context, empty before the reply,
  is built for that frame and the frame is scaled into it.
\<close>

theorem abandoned_screenshot_reply_is_processed:
  "screenshot_in_progress outstanding_state \<and>
   thumbnail_ctx (queue_screenshot True False outstanding_state) = thumbnail_ctx_zero \<and>
   calls (queue_screenshot True False outstanding_state) = [Mpv_Command_Async (Some ''video'')] \<and>
   result_ctx (on_done_screenshot ok_thumb_env frame_reply
                 (queue_screenshot True False outstanding_state)) =
     Some \<lparr>src_w = 1, src_stride = 4, src_h = 1, dst_w = 64, dst_stride = 256, dst_h = 64,
           thumbnail = Some 16384, pixbuf = True, sws = True\<rparr> \<and>
   result_calls (on_done_screenshot ok_thumb_env frame_reply
                   (queue_screenshot True False outstanding_state)) =
     Some [Mpv_Command_Async (Some ''video''),
           Notify_Notification_Set_Image_From_Pixbuf False,
           Sws_GetContext 1 1 64 64 4, Malloc 16384, Gdk_Pixbuf_New_From_Data 64 64 256,
           Notify_Notification_Set_Image_From_Pixbuf True, Sws_Scale]"
  by code_simp

lemma actions_le_refl [simp]: "actions_le a a"
  by (simp add: actions_le_def)

lemma actions_le_or [simp]: "actions_le a (a OR b)"
  by (simp add: actions_le_def word_ao_absorbs)

lemma actions_le_trans: "actions_le a b \<Longrightarrow> actions_le b c \<Longrightarrow> actions_le a c"
  unfolding actions_le_def by (metis and.assoc)

lemma actions_le_eq: "b = a \<Longrightarrow> actions_le a b"
  by simp

lemma actions_le_iff: "actions_le a b \<longleftrightarrow> (\<forall>n. bit a n \<longrightarrow> bit b n)"
proof
  assume "actions_le a b"
  then have e: "a AND b = a"
    by (simp add: actions_le_def)
  show "\<forall>n. bit a n \<longrightarrow> bit b n"
  proof (intro allI impI)
    fix n
    assume "bit a n"
    then have "bit (a AND b) n"
      by (simp add: e)
    then show "bit b n"
      by (simp add: bit_and_iff)
  qed
next
  assume r: "\<forall>n. bit a n \<longrightarrow> bit b n"
  show "actions_le a b"
    unfolding actions_le_def
    by (rule bit_eqI) (use r in \<open>auto simp add: bit_and_iff\<close>)
qed

lemma da_frame_from_commute:
  assumes "\<And>s a. f (s\<lparr>done_actions := a\<rparr>) = (f s)\<lparr>done_actions := a\<rparr>"
  shows "done_actions (f s) = done_actions s"
proof -
  have "f s = f (s\<lparr>done_actions := done_actions s\<rparr>)"
    by simp
  also have "\<dots> = (f s)\<lparr>done_actions := done_actions s\<rparr>"
    by (rule assms)
  finally have "done_actions (f s) = done_actions ((f s)\<lparr>done_actions := done_actions s\<rparr>)"
    by simp
  then show ?thesis
    by simp
qed

lemma da_frame:
  "done_actions (emit c s) = done_actions s"
  "done_actions (timer_disarm s) = done_actions s"
  "done_actions (ntf_set_image s) = done_actions s"
  "done_actions (ntf_set_progress_bar s) = done_actions s"
  "done_actions (ntf_set_urgency s) = done_actions s"
  "done_actions (ntf_set_category s) = done_actions s"
  "done_actions (ntf_set_app_name s) = done_actions s"
  "done_actions (ntf_set_app_icon s) = done_actions s"
  "done_actions (ntf_close s) = done_actions s"
  "done_actions (thumbnail_ctx_destroy s) = done_actions s"
  "done_actions (queue_screenshot ok f s) = done_actions s"
  "done_actions (ntf_upd e s) = done_actions s"
  "done_actions (ntf_rst de s) = done_actions s"
  by (rule da_frame_from_commute, rule emit_da basic_da thumbnail_ctx_destroy_da
      queue_screenshot_da ntf_upd_da ntf_rst_da)+

lemma add_actions_le: "actions_le (done_actions s) (done_actions (add_actions a s))"
  by (simp add: add_actions_def)

lemma opt_changed_effects_le:
  "actions_le (done_actions s) (done_actions (opt_changed_effects i s))"
  by (cases i) (auto simp add: add_actions_def da_frame Let_def actions_le_iff bit_or_iff)

lemma opts_run_changed_from_le:
  "opts_run_changed_from is before after s = Inr s' \<Longrightarrow>
   actions_le (done_actions s) (done_actions s')"
proof (induction "is" arbitrary: s)
  case Nil
  then show ?case by simp
next
  case (Cons i "is")
  from Cons.prems obtain changed where c: "opt_changed (before i) (after i) = Inr changed"
    and r: "opts_run_changed_from is before after
              (if changed then opt_changed_effects i s else s) = Inr s'"
    by (auto split: sum.splits)
  have "actions_le (done_actions s)
          (done_actions (if changed then opt_changed_effects i s else s))"
    by (simp add: opt_changed_effects_le)
  with Cons.IH [OF r] show ?case
    by (rule actions_le_trans [rotated])
qed

lemma opts_run_changed_le:
  "opts_run_changed before after s = Inr s' \<Longrightarrow> actions_le (done_actions s) (done_actions s')"
  unfolding opts_run_changed_def by (rule opts_run_changed_from_le)

lemma property_switch_le:
  "property_switch oe ud ev s = Inr s' \<Longrightarrow> actions_le (done_actions s) (done_actions s')"
proof (cases ud)
  case P_OPTIONS_SCRIPT_OPTS
  assume "property_switch oe ud ev s = Inr s'"
  with P_OPTIONS_SCRIPT_OPTS
  have "opts_run_changed (copied_previous oe) (layered_opts oe) (s\<lparr>opts := layered_opts oe\<rparr>) = Inr s'"
    by (simp add: on_script_opts_def)
  from opts_run_changed_le [OF this] show ?thesis
    by simp
next
  case P_PERCENT_POS
  assume "property_switch oe ud ev s = Inr s'"
  with P_PERCENT_POS have "s' = on_percent_pos s"
    by simp
  then show ?thesis
    by (auto simp add: on_percent_pos_def Let_def add_actions_def da_frame
        actions_le_iff bit_or_iff)
qed (auto simp add: da_frame metadata_update_def on_mouse_pos_def add_actions_def Let_def)

lemma on_property_change_le:
  "on_property_change oe ud ev s = Inr s' \<Longrightarrow> actions_le (done_actions s) (done_actions s')"
proof -
  assume a: "on_property_change oe ud ev s = Inr s'"
  define s4 where "s4 =
     (let s1 = save_prop ev ud s;
          s2 = (if \<not> prop_action_if_true ud \<or> op_true s1 ud
                then add_actions (prop_action ud) s1 else s1);
          s3 = (if prop_part_of_summary ud then s2\<lparr>rewrite_summary := True\<rparr> else s2)
      in (if prop_part_of_body ud then s3\<lparr>rewrite_body := True\<rparr> else s3))"
  have 1: "actions_le (done_actions s) (done_actions s4)"
    by (simp add: s4_def Let_def save_prop_def add_actions_def)
  from a have "property_switch oe ud ev s4 = Inr s'"
    by (simp add: on_property_change_def s4_def Let_def)
  from 1 property_switch_le [OF this] show ?thesis
    by (rule actions_le_trans)
qed

lemma thumbnail_ctx_maybe_new_da_case:
  "(case thumbnail_ctx_maybe_new te w h stride s of
      Inl x \<Rightarrow> True | Inr t \<Rightarrow> done_actions t = done_actions s)"
  by (simp add: thumbnail_ctx_maybe_new_def Let_def bind_result_def da_frame split: sum.split)

lemma thumbnail_ctx_maybe_new_da:
  "thumbnail_ctx_maybe_new te w h stride s = Inr s' \<Longrightarrow> done_actions s' = done_actions s"
  using thumbnail_ctx_maybe_new_da_case [where te = te and w = w and h = h and stride = stride and s = s]
  by simp

lemma thumbnail_ctx_process_le:
  "actions_le (done_actions s) (done_actions (thumbnail_ctx_process s))"
  by (simp add: thumbnail_ctx_process_def Let_def da_frame add_actions_def)

lemma on_done_screenshot_le_case:
  "(case on_done_screenshot te command_node s of
      Inl x \<Rightarrow> True | Inr t \<Rightarrow> actions_le (done_actions s) (done_actions t))"
proof -
  have "actions_le (done_actions s) (done_actions (thumbnail_ctx_process s1))"
    if "thumbnail_ctx_maybe_new te w h stride (s\<lparr>screenshot_in_progress := False\<rparr>) = Inr s1"
    for w h stride s1
    using thumbnail_ctx_maybe_new_da [OF that] thumbnail_ctx_process_le [of s1]
    by simp
  then show ?thesis
    by (auto simp add: on_done_screenshot_def Let_def bind_result_def
        split: sum.split mpv_node.split)
qed

lemma on_done_screenshot_le:
  "on_done_screenshot te command_node s = Inr s' \<Longrightarrow>
   actions_le (done_actions s) (done_actions s')"
  using on_done_screenshot_le_case [where te = te and command_node = command_node and s = s]
  by simp

lemma on_client_message_le:
  "on_client_message oe args s = Inr s' \<Longrightarrow> actions_le (done_actions s) (done_actions s')"
proof (cases "\<exists>rest. args = ''reload-config'' # rest")
  case True
  assume "on_client_message oe args s = Inr s'"
  with True have "opts_run_changed (copied_previous oe) (layered_opts oe)
      (s\<lparr>opts_base := layered_base oe, opts := layered_opts oe\<rparr>) = Inr s'"
    by (auto simp add: on_client_message_def reload_config_def)
  from opts_run_changed_le [OF this] show ?thesis
    by simp
next
  case False
  assume "on_client_message oe args s = Inr s'"
  with False show ?thesis
    by (auto simp add: on_client_message_def add_actions_def split: list.splits if_splits)
qed

lemma handle_event_le:
  "handle_event ev s = Inr s' \<Longrightarrow> actions_le (done_actions s) (done_actions s')"
  by (cases ev)
    (auto simp add: add_actions_def dest: on_done_screenshot_le on_client_message_le
      on_property_change_le)

lemma dispatch_mpv_events_Cons:
  "ev \<noteq> Event_Shutdown \<Longrightarrow>
   dispatch_mpv_events (ev # evs) s =
     (case handle_event ev s of Inl x \<Rightarrow> Inl x | Inr s1 \<Rightarrow> dispatch_mpv_events evs s1)"
  by (cases ev) simp_all

lemma dispatch_mpv_events_le:
  "dispatch_mpv_events evs s = Inr (r, s') \<Longrightarrow> actions_le (done_actions s) (done_actions s')"
proof (induction evs arbitrary: s)
  case Nil
  then show ?case by simp
next
  case (Cons ev evs)
  show ?case
  proof (cases "ev = Event_Shutdown")
    case True
    with Cons.prems show ?thesis by simp
  next
    case False
    with Cons.prems obtain s1 where 1: "handle_event ev s = Inr s1"
      and 2: "dispatch_mpv_events evs s1 = Inr (r, s')"
      by (auto simp add: dispatch_mpv_events_Cons split: sum.splits)
    from handle_event_le [OF 1] Cons.IH [OF 2] show ?thesis
      by (rule actions_le_trans)
  qed
qed

lemma dispatch_mpv_events_append:
  "dispatch_mpv_events (evs @ evs') s = Inr (0, s2) \<Longrightarrow>
   \<exists>sm. dispatch_mpv_events evs s = Inr (0, sm) \<and> dispatch_mpv_events evs' sm = Inr (0, s2)"
proof (induction evs arbitrary: s)
  case Nil
  then show ?case by simp
next
  case (Cons ev evs)
  show ?case
  proof (cases "ev = Event_Shutdown")
    case True
    with Cons.prems show ?thesis by simp
  next
    case False
    with Cons.prems obtain s1 where 1: "handle_event ev s = Inr s1"
      and 2: "dispatch_mpv_events (evs @ evs') s1 = Inr (0, s2)"
      by (auto simp add: dispatch_mpv_events_Cons split: sum.splits)
    from Cons.IH [OF 2] False 1 show ?thesis
      by (simp add: dispatch_mpv_events_Cons)
  qed
qed

lemma loop_accumulate_le:
  "loop_accumulate p evs s = Inr (Continue s') \<Longrightarrow>
   actions_le (done_actions s) (done_actions s')"
proof -
  assume a: "loop_accumulate p evs s = Inr (Continue s')"
  have t: "actions_le (done_actions x) (done_actions y)"
    if "y = x \<or> y = add_actions A_NTF_CLOSE x" for x y
    using that by (auto simp add: add_actions_def)
  show ?thesis
  proof (cases "wakeup_in p")
    case True
    with a obtain r s1 where d: "dispatch_mpv_events evs s = Inr (r, s1)"
      and e: "s' = s1 \<or> s' = add_actions A_NTF_CLOSE s1"
      by (auto simp add: loop_accumulate_def bind_result_eq_Inr split: if_splits)
    from dispatch_mpv_events_le [OF d] t [OF e] show ?thesis
      by (rule actions_le_trans)
  next
    case False
    with a have "s' = s \<or> s' = add_actions A_NTF_CLOSE s"
      by (auto simp add: loop_accumulate_def bind_result_eq_Inr split: if_splits)
    then show ?thesis
      by (rule t)
  qed
qed

lemma done_steps_le:
  "actions_le (done_actions s) (done_actions (done_check_image s))"
  "actions_le (done_actions s) (done_actions (done_queue_shot de s))"
  "actions_le (done_actions s) (done_actions (done_notify de s))"
  by (simp_all add: done_check_image_def ntf_check_image_def done_queue_shot_def
      done_notify_def da_frame Let_def)

lemma done_main_le: "actions_le (done_actions s) (done_actions (done_main de s))"
  unfolding done_main_def
  by (blast intro: actions_le_trans done_steps_le)

text \<open>
  Claim C6. Between two ends of \<^verbatim>\<open>done()\<close>, \<^verbatim>\<open>done_actions\<close> only gains flags. Every event
  handler that returns leaves every flag set that was set before; so does a whole batch of
  events, and each part of it; so does the part of a turn of the main loop before
  \<^verbatim>\<open>done()\<close>, which may add \<^verbatim>\<open>A_NTF_CLOSE\<close> for the expired timer. Within \<^verbatim>\<open>done()\<close> the
  image check, the screenshot request and the notification step keep every flag as well, and
  a flag added there is kept until the end: when \<^verbatim>\<open>A_NTF_CHECK_IMAGE\<close> is set and image
  support goes from enabled to disabled, \<^verbatim>\<open>A_NTF_UPD\<close> is set when the notification step
  has run. \<^verbatim>\<open>done()\<close> is these steps followed by the one assignment
  \<^verbatim>\<open>done_actions = 0\<close>, and a turn of the main loop that continues is the accumulation
  followed by \<^verbatim>\<open>done()\<close>, so the set is emptied once a turn, as the last thing.
\<close>

theorem done_actions_grow_until_finished:
  "(handle_event ev s = Inr s1 \<longrightarrow> actions_le (done_actions s) (done_actions s1)) \<and>
   (dispatch_mpv_events (evs @ evs') s = Inr (0, s2) \<longrightarrow>
      (\<exists>sm. dispatch_mpv_events evs s = Inr (0, sm) \<and>
            dispatch_mpv_events evs' sm = Inr (0, s2) \<and>
            actions_le (done_actions s) (done_actions sm) \<and>
            actions_le (done_actions sm) (done_actions s2))) \<and>
   (loop_accumulate p evs s = Inr (Continue s3) \<longrightarrow>
      actions_le (done_actions s) (done_actions s3)) \<and>
   actions_le (done_actions s) (done_actions (done_check_image s)) \<and>
   actions_le (done_actions s) (done_actions (done_queue_shot de s)) \<and>
   actions_le (done_actions s) (done_actions (done_notify de s)) \<and>
   actions_le (done_actions s) (done_actions (done_main de s)) \<and>
   (c_true (done_actions s AND A_NTF_CHECK_IMAGE) \<and> ntf_image_enabled s \<and>
    \<not> ntf_image_enabled (ntf_check_image s) \<longrightarrow>
      c_true (done_actions (done_main de s) AND A_NTF_UPD)) \<and>
   done_fn de s = finished (done_main de s) \<and>
   done_actions (finished s) = 0 \<and>
   (loop_turn p evs de s = Inr (Continue s4) \<longrightarrow>
      (\<exists>s3. loop_accumulate p evs s = Inr (Continue s3) \<and>
            s4 = finished (done_main de s3) \<and> done_actions s4 = 0))"
proof (intro conjI impI)
  show "actions_le (done_actions s) (done_actions s1)" if "handle_event ev s = Inr s1"
    using that by (rule handle_event_le)
  show "\<exists>sm. dispatch_mpv_events evs s = Inr (0, sm) \<and>
            dispatch_mpv_events evs' sm = Inr (0, s2) \<and>
            actions_le (done_actions s) (done_actions sm) \<and>
            actions_le (done_actions sm) (done_actions s2)"
    if "dispatch_mpv_events (evs @ evs') s = Inr (0, s2)"
    using dispatch_mpv_events_append [OF that] by (blast intro: dispatch_mpv_events_le)
  show "actions_le (done_actions s) (done_actions s3)"
    if "loop_accumulate p evs s = Inr (Continue s3)"
    using that by (rule loop_accumulate_le)
  show "actions_le (done_actions s) (done_actions (done_check_image s))"
    "actions_le (done_actions s) (done_actions (done_queue_shot de s))"
    "actions_le (done_actions s) (done_actions (done_notify de s))"
    by (rule done_steps_le)+
  show "actions_le (done_actions s) (done_actions (done_main de s))"
    by (rule done_main_le)
  show "c_true (done_actions (done_main de s) AND A_NTF_UPD)"
    if a: "c_true (done_actions s AND A_NTF_CHECK_IMAGE) \<and> ntf_image_enabled s \<and>
       \<not> ntf_image_enabled (ntf_check_image s)"
  proof -
    from a have "bit (done_actions (done_check_image s)) 1"
      using ntf_check_image_cases [of s]
      by (simp add: done_check_image_def flag_simps)
    moreover have "actions_le (done_actions (done_check_image s)) (done_actions (done_main de s))"
      unfolding done_main_def by (blast intro: actions_le_trans done_steps_le)
    ultimately show ?thesis
      by (simp add: actions_le_iff flag_bits)
  qed
  show "done_fn de s = finished (done_main de s)"
    by (simp add: done_fn_def)
  show "done_actions (finished s) = 0"
    by (simp add: finished_def)
  show "\<exists>s3. loop_accumulate p evs s = Inr (Continue s3) \<and>
            s4 = finished (done_main de s3) \<and> done_actions s4 = 0"
    if a: "loop_turn p evs de s = Inr (Continue s4)"
  proof -
    from a have "\<exists>st. loop_accumulate p evs s = Inr st \<and>
        (case st of Break s1 \<Rightarrow> Inr (Break s1)
                  | Continue s1 \<Rightarrow> Inr (Continue (done_fn de s1))) =
          (Inr (Continue s4) :: loop_step result)"
      by (simp add: loop_turn_def bind_result_eq_Inr)
    then obtain st where 1: "loop_accumulate p evs s = Inr st"
      and 2: "(case st of Break s1 \<Rightarrow> Inr (Break s1)
                | Continue s1 \<Rightarrow> Inr (Continue (done_fn de s1))) =
          (Inr (Continue s4) :: loop_step result)"
      by blast
    from 2 obtain s3 where "st = Continue s3" "s4 = done_fn de s3"
      by (cases st) auto
    with 1 show ?thesis
      by (auto simp add: done_fn_def finished_def)
  qed
qed

theorem done_actions_grow_until_finished_witness:
  "handle_event Event_Seek initial_state = Inr (add_actions A_NTF_RST initial_state) \<and>
   actions_le (done_actions initial_state) (done_actions (add_actions A_NTF_RST initial_state)) \<and>
   dispatch_mpv_events ([Event_Seek] @ [Event_Video_Reconfig]) initial_state =
     Inr (0, seek_then_reconfig) \<and>
   actions_le (done_actions (add_actions A_NTF_RST initial_state))
     (done_actions seek_then_reconfig) \<and>
   loop_accumulate busy_poll [Event_Seek] initial_state =
     Inr (Continue (add_actions A_NTF_CLOSE (add_actions A_NTF_RST initial_state))) \<and>
   loop_turn busy_poll [Event_Seek] all_ok_env initial_state =
     Inr (Continue (done_fn all_ok_env
            (add_actions A_NTF_CLOSE (add_actions A_NTF_RST initial_state)))) \<and>
   done_actions (done_fn all_ok_env
     (add_actions A_NTF_CLOSE (add_actions A_NTF_RST initial_state))) = 0 \<and>
   c_true (done_actions check_image_state AND A_NTF_CHECK_IMAGE) \<and>
   ntf_image_enabled check_image_state \<and>
   \<not> ntf_image_enabled (ntf_check_image check_image_state) \<and>
   c_true (done_actions (done_main all_ok_env check_image_state) AND A_NTF_UPD)"
proof -
  have 1: "handle_event Event_Seek initial_state = Inr (add_actions A_NTF_RST initial_state)"
    by simp
  have 2: "dispatch_mpv_events ([Event_Seek] @ [Event_Video_Reconfig]) initial_state =
     Inr (0, seek_then_reconfig)"
    by (simp add: seek_then_reconfig_def)
  have 3: "loop_accumulate busy_poll [Event_Seek] initial_state =
     Inr (Continue (add_actions A_NTF_CLOSE (add_actions A_NTF_RST initial_state)))"
    by (simp add: loop_accumulate_def busy_poll_def)
  have 4: "loop_turn busy_poll [Event_Seek] all_ok_env initial_state =
     Inr (Continue (done_fn all_ok_env
            (add_actions A_NTF_CLOSE (add_actions A_NTF_RST initial_state))))"
    by (simp add: loop_turn_def 3)
  have 5: "c_true (done_actions check_image_state AND A_NTF_CHECK_IMAGE) \<and>
      ntf_image_enabled check_image_state \<and>
      \<not> ntf_image_enabled (ntf_check_image check_image_state)"
    by (simp add: check_image_state_def example_defs flag_defs c_true_def ntf_check_image_def
        focus_defs Let_def thumbnail_ctx_destroy_def ntf_set_image_def emit_def)
  have 6: "dispatch_mpv_events [Event_Seek] initial_state =
      Inr (0, add_actions A_NTF_RST initial_state)"
    by simp
  note t = done_actions_grow_until_finished
  from 1 t [where ev = Event_Seek and s = initial_state
      and ?s1.0 = "add_actions A_NTF_RST initial_state"]
  have a: "actions_le (done_actions initial_state)
      (done_actions (add_actions A_NTF_RST initial_state))"
    by blast
  from 2 6 t [where evs = "[Event_Seek]" and evs' = "[Event_Video_Reconfig]"
      and s = initial_state and ?s2.0 = seek_then_reconfig]
  have b: "actions_le (done_actions (add_actions A_NTF_RST initial_state))
     (done_actions seek_then_reconfig)"
    by (metis Inr_inject prod.inject)
  from 4 t [where p = busy_poll and evs = "[Event_Seek]" and de = all_ok_env
      and s = initial_state and ?s4.0 = "done_fn all_ok_env
            (add_actions A_NTF_CLOSE (add_actions A_NTF_RST initial_state))"]
  have c: "done_actions (done_fn all_ok_env
     (add_actions A_NTF_CLOSE (add_actions A_NTF_RST initial_state))) = 0"
    by blast
  from 5 t [where s = check_image_state and de = all_ok_env]
  have d: "c_true (done_actions (done_main all_ok_env check_image_state) AND A_NTF_UPD)"
    by blast
  from 1 2 3 4 5 a b c d show ?thesis
    by blast
qed

subsection \<open>Changes between two option snapshots\<close>

text \<open>
  When \<^verbatim>\<open>opt_changed\<close> returns, a string slot has changed iff exactly one of the two strings
  is NULL or both are present and differ, and a flag or integer slot has changed iff the two
  values are unequal.
\<close>

lemma opt_changed_value:
  assumes "format before = format after"
    and "\<not> (before = Node_String None \<and> after = Node_String None)"
  shows "opt_changed before after =
     Inr (case before of
            Node_String b \<Rightarrow> b \<noteq> u_string after
          | Node_Flag f \<Rightarrow> f \<noteq> u_flag after
          | Node_Int64 n \<Rightarrow> n \<noteq> u_int64 after
          | _ \<Rightarrow> False)"
  using assms
  by (cases before; cases after) (auto simp add: opt_changed_def Let_def split: option.splits)

lemma opt_changed_same: "n \<noteq> Node_String None \<Longrightarrow> opt_changed n n = Inr False"
  by (cases n) (auto simp add: opt_changed_def Let_def split: option.splits)

lemma opt_changed_differ:
  assumes "before \<noteq> after" and "format before = format after"
    and "format before \<in> {MPV_FORMAT_STRING, MPV_FORMAT_FLAG, MPV_FORMAT_INT64}"
  shows "opt_changed before after = Inr True"
proof (cases before)
  case (Node_String b)
  with assms obtain a where a: "after = Node_String a" "a \<noteq> b"
    by (cases after) auto
  with Node_String show ?thesis
    by (cases a; cases b) (simp_all add: opt_changed_def)
qed (use assms in \<open>cases after; simp add: opt_changed_def\<close>)+

lemma opts_run_changed_from_one_slot:
  assumes k: "opt_changed (before k) (after k) = Inr True"
    and o: "\<And>i. i \<noteq> k \<Longrightarrow> opt_changed (before i) (after i) = Inr False"
  shows "distinct is \<Longrightarrow>
     opts_run_changed_from is before after s =
       Inr (if k \<in> set is then opt_changed_effects k s else s)"
proof (induction "is" arbitrary: s)
  case Nil
  show ?case by simp
next
  case (Cons i "is")
  then show ?case
    by (cases "i = k") (auto simp add: k o)
qed

lemma opts_keys_complete: "distinct opts_keys \<and> k \<in> set opts_keys"
  by (cases k) (simp_all add: opts_keys_def)

text \<open>
  When two snapshots differ in exactly one slot and no string slot is NULL in both, exactly the
  side effects mapped to that slot happen, once.
\<close>

lemma opts_run_changed_one_slot:
  assumes shape: "\<And>i. format (before i) = format (after i)"
    and formats: "\<And>i. format (before i) \<in> {MPV_FORMAT_STRING, MPV_FORMAT_FLAG, MPV_FORMAT_INT64}"
    and present: "\<And>i. \<not> (before i = Node_String None \<and> after i = Node_String None)"
    and differ: "before k \<noteq> after k"
    and same: "\<And>i. i \<noteq> k \<Longrightarrow> before i = after i"
  shows "opts_run_changed before after s = Inr (opt_changed_effects k s)"
proof -
  have k: "opt_changed (before k) (after k) = Inr True"
    using differ shape formats by (rule opt_changed_differ)
  have o: "opt_changed (before i) (after i) = Inr False" if "i \<noteq> k" for i
    using same [OF that] present [of i] by (simp add: opt_changed_same)
  from opts_run_changed_from_one_slot [of before k after opts_keys s, OF k o]
    opts_keys_complete [of k]
  show ?thesis
    by (simp add: opts_run_changed_def)
qed

text \<open>
  Claim C8 at two snapshots in which the string slot \<^verbatim>\<open>ntf_app_icon\<close> is NULL in both (and
  which agree everywhere else): neither of the two NULL tests of \<^verbatim>\<open>opts_run_changed\<close>
  applies, so the code calls \<^verbatim>\<open>strcmp(NULL, NULL)\<close> instead of reporting the slot
  unchanged.
\<close>

theorem opts_run_changed_both_null:
  "opts_run_changed null_icon_opts null_icon_opts initial_state = Inl Strcmp_Null"
  by (simp add: opts_run_changed_def opts_keys_def null_icon_opts_def opt_changed_def)

end
